theory Spec2Isabelle
  imports Complex_Main
begin

section \<open>Connection routing and bridge rendering (utils/routing.ts)\<close>

text \<open>
  A shallow embedding of \<^verbatim>\<open>src/web-frontend/src/utils/routing.ts\<close>.

  Numbers. The source computes with JavaScript numbers (IEEE doubles). The model computes
  with \<^typ>\<open>real\<close>: every comparison and every branch of the source is kept, rounding and
  the values NaN and Infinity are not modelled. Ids and array indices are \<^typ>\<open>int\<close>
  (the source types them \<^verbatim>\<open>number\<close>, so a negative index is a possible argument).

  Errors. The one way the source can throw is reading a field of \<^verbatim>\<open>undefined\<close>;
  it is the value \<open>Inl TypeError\<close> of the model.

  Path strings. \<^verbatim>\<open>pathData\<close> is built from the three templates
  \<^verbatim>\<open>M x y\<close>, \<^verbatim>\<open> L x y\<close> and \<^verbatim>\<open> Q cx cy x y\<close>; the model keeps the sequence of
  these commands with their numeric arguments, not the decimal rendering of the numbers.
\<close>

subsection \<open>Data model\<close>

text \<open>\<^verbatim>\<open>interface Point { x; y }\<close> and \<^verbatim>\<open>interface Vector { x; y }\<close> have the same
  shape, and the source passes one for the other (\<^verbatim>\<open>sub\<close> returns a Vector from two
  Points); they are one record.\<close>

record point =
  p_x :: real
  p_y :: real

type_synonym vector = point

record rect =
  r_x :: real
  r_y :: real
  r_width :: real
  r_height :: real

text \<open>A grip: percentages of the rendered box, \<open>g_y = 100\<close> being the top edge.\<close>

record grip =
  g_x :: real
  g_y :: real

text \<open>\<^verbatim>\<open>CanvasItem\<close> (declared in \<^verbatim>\<open>components/Canvas/types\<close>); \<open>grips\<close> may be
  absent, which the source tests with \<^verbatim>\<open>!item.grips\<close> and \<^verbatim>\<open>grips?.[i]\<close>.\<close>

record canvasItem =
  item_id :: int
  item_x :: real
  item_y :: real
  item_width :: real
  item_height :: real
  naturalWidth :: real
  naturalHeight :: real
  grips :: "grip list option"

record connection =
  conn_id :: int
  sourceItemId :: int
  sourceGripIndex :: int
  targetItemId :: int
  targetGripIndex :: int
  waypoints :: "point list option"

record lineSegment =
  seg_p1 :: point
  seg_p2 :: point
  lineId :: int
  seg_dir :: vector
  seg_len :: real

datatype error = TypeError

text \<open>The commands of a path string, in order.\<close>

datatype pathCmd = M point | L point | Q point point

record pathMetadata =
  pathData :: "pathCmd list"
  endPoint :: "point option"
  arrowAngle :: real
  meta_waypoints :: "point list option"

text \<open>The aspect-fit function imported from \<^verbatim>\<open>./layout\<close>: allotted width and height,
  natural width and height, to the render rectangle inside the allotted box.\<close>

type_synonym aspectFit = "real \<Rightarrow> real \<Rightarrow> real \<Rightarrow> real \<Rightarrow> rect"

text \<open>Modelled from the spec: \<^verbatim>\<open>calculateAspectFit\<close> of \<^verbatim>\<open>utils/layout\<close> is not among
  the sources. The spec describes it as centring the natural aspect ratio inside the
  allotted box, scaled to fit without cropping, as a letterboxing image viewer does.\<close>

definition calculateAspectFit :: aspectFit where
  "calculateAspectFit w h nw nh =
     (let scale = min (w / nw) (h / nh);
          rw = nw * scale;
          rh = nh * scale
      in \<lparr>r_x = (w - rw) / 2, r_y = (h - rh) / 2, r_width = rw, r_height = rh\<rparr>)"

subsection \<open>Constants\<close>

definition BRIDGE_SIZE :: real where "BRIDGE_SIZE = 12"
definition BRIDGE_HEIGHT :: real where "BRIDGE_HEIGHT = 12"
definition STANDOFF_DIST :: real where "STANDOFF_DIST = 20"

subsection \<open>Grip resolver\<close>

text \<open>JavaScript's \<^verbatim>\<open>xs[i]\<close> for an integer \<open>i\<close>: the element, or \<^verbatim>\<open>undefined\<close>.\<close>

definition js_index :: "'a list \<Rightarrow> int \<Rightarrow> 'a option" where
  "js_index xs i = (if 0 \<le> i \<and> i < int (length xs) then Some (xs ! nat i) else None)"

text \<open>\<^verbatim>\<open>getGripPosition\<close>: \<open>Inr None\<close> is the source's \<^verbatim>\<open>null\<close>. The guard lets an
  index below the array's length through; \<^verbatim>\<open>item.grips[gripIndex]\<close> is then
  \<^verbatim>\<open>undefined\<close> for a negative index and \<^verbatim>\<open>grip.x\<close> throws.\<close>

definition getGripPosition :: "aspectFit \<Rightarrow> canvasItem \<Rightarrow> int \<Rightarrow> error + point option" where
  "getGripPosition fit item gripIndex =
     (case grips item of
        None \<Rightarrow> Inr None
      | Some gs \<Rightarrow>
          if gripIndex \<ge> int (length gs) then Inr None
          else
            let r = fit (item_width item) (item_height item)
                        (naturalWidth item) (naturalHeight item)
            in case js_index gs gripIndex of
                 None \<Rightarrow> Inl TypeError
               | Some g \<Rightarrow>
                   Inr (Some \<lparr>p_x = (item_x item + r_x r) + (g_x g / 100) * r_width r,
                              p_y = (item_y item + r_y r) + ((100 - g_y g) / 100) * r_height r\<rparr>))"

subsection \<open>Obstacles and the router\<close>

definition getItemRects :: "aspectFit \<Rightarrow> canvasItem list \<Rightarrow> rect list" where
  "getItemRects fit items =
     map (\<lambda>item.
            let r = fit (item_width item) (item_height item)
                        (naturalWidth item) (naturalHeight item)
            in \<lparr>r_x = item_x item + r_x r, r_y = item_y item + r_y r,
                r_width = r_width r, r_height = r_height r\<rparr>) items"

definition segmentHitsRect :: "point \<Rightarrow> point \<Rightarrow> rect \<Rightarrow> bool" where
  "segmentHitsRect a b r =
     (let minX = min (p_x a) (p_x b);
          maxX = max (p_x a) (p_x b);
          minY = min (p_y a) (p_y b);
          maxY = max (p_y a) (p_y b)
      in \<not> (maxX < r_x r \<or> minX > r_x r + r_width r \<or>
             maxY < r_y r \<or> minY > r_y r + r_height r))"

text \<open>The four candidate bend sequences, in the order they are pushed.\<close>

definition candidates :: "point \<Rightarrow> point \<Rightarrow> point list list" where
  "candidates start en =
     (let midX = (p_x start + p_x en) / 2;
          midY = (p_y start + p_y en) / 2
      in [[\<lparr>p_x = p_x en, p_y = p_y start\<rparr>],
          [\<lparr>p_x = p_x start, p_y = p_y en\<rparr>],
          [\<lparr>p_x = midX, p_y = p_y start\<rparr>, \<lparr>p_x = midX, p_y = p_y en\<rparr>],
          [\<lparr>p_x = p_x start, p_y = midY\<rparr>, \<lparr>p_x = p_x en, p_y = midY\<rparr>]])"

text \<open>The inner loop of \<^verbatim>\<open>hitsObstacle\<close>: \<^verbatim>\<open>for (const r of obstacles)\<close>.\<close>

fun hitsAnyRect :: "point \<Rightarrow> point \<Rightarrow> rect list \<Rightarrow> bool" where
  "hitsAnyRect a b [] = False"
| "hitsAnyRect a b (r # rs) = (if segmentHitsRect a b r then True else hitsAnyRect a b rs)"

text \<open>The outer loop, over the consecutive pairs \<^verbatim>\<open>full[i], full[i + 1]\<close>.\<close>

fun hitsLoop :: "rect list \<Rightarrow> point list \<Rightarrow> bool" where
  "hitsLoop obstacles (a # b # rest) =
     (if hitsAnyRect a b obstacles then True else hitsLoop obstacles (b # rest))"
| "hitsLoop obstacles [a] = False"
| "hitsLoop obstacles [] = False"

definition hitsObstacle :: "rect list \<Rightarrow> point \<Rightarrow> point \<Rightarrow> point list \<Rightarrow> bool" where
  "hitsObstacle obstacles start en pts = hitsLoop obstacles (start # pts @ [en])"

text \<open>\<^verbatim>\<open>for (const c of candidates) if (!hitsObstacle(c)) return c\<close>; \<open>None\<close> when the
  loop falls through.\<close>

fun firstClean :: "rect list \<Rightarrow> point \<Rightarrow> point \<Rightarrow> point list list \<Rightarrow> point list option" where
  "firstClean obstacles start en [] = None"
| "firstClean obstacles start en (c # cs) =
     (if \<not> hitsObstacle obstacles start en c then Some c
      else firstClean obstacles start en cs)"

definition smartRoute :: "aspectFit \<Rightarrow> point \<Rightarrow> point \<Rightarrow> canvasItem list \<Rightarrow> point list" where
  "smartRoute fit start en items =
     (let obstacles = getItemRects fit items;
          cs = candidates start en
      in case firstClean obstacles start en cs of
           Some c \<Rightarrow> c
         | None \<Rightarrow> cs ! 0)"

subsection \<open>Vector helpers\<close>

definition sub :: "point \<Rightarrow> point \<Rightarrow> vector" where
  "sub a b = \<lparr>p_x = p_x a - p_x b, p_y = p_y a - p_y b\<rparr>"

definition add :: "point \<Rightarrow> vector \<Rightarrow> point" where
  "add a b = \<lparr>p_x = p_x a + p_x b, p_y = p_y a + p_y b\<rparr>"

definition mult :: "vector \<Rightarrow> real \<Rightarrow> vector" where
  "mult v s = \<lparr>p_x = p_x v * s, p_y = p_y v * s\<rparr>"

definition len :: "vector \<Rightarrow> real" where
  "len v = sqrt (p_x v * p_x v + p_y v * p_y v)"

definition normalize_vec :: "vector \<Rightarrow> vector" where
  "normalize_vec v =
     (let l = len v
      in if l = 0 then \<lparr>p_x = 0, p_y = 0\<rparr> else \<lparr>p_x = p_x v / l, p_y = p_y v / l\<rparr>)"

definition perp :: "vector \<Rightarrow> vector" where
  "perp v = \<lparr>p_x = - p_y v, p_y = p_x v\<rparr>"

subsection \<open>Segment intersection\<close>

definition getIntersectionT :: "lineSegment \<Rightarrow> lineSegment \<Rightarrow> real option" where
  "getIntersectionT seg1 seg2 =
     (let p = seg_p1 seg1;
          r = sub (seg_p2 seg1) (seg_p1 seg1);
          q = seg_p1 seg2;
          s = sub (seg_p2 seg2) (seg_p1 seg2);
          rXs = p_x r * p_y s - p_y r * p_x s
      in if \<bar>rXs\<bar> < 1 / 100000 then None
         else
           let qp = sub q p;
               t = (p_x qp * p_y s - p_y qp * p_x s) / rXs;
               u = (p_x qp * p_y r - p_y qp * p_x r) / rXs;
               buffer = 1 / 1000
           in if t > buffer \<and> t < 1 - buffer \<and> u > buffer \<and> u < 1 - buffer
              then Some (t * seg_len seg1)
              else None)"

subsection \<open>Standoff\<close>

datatype side = Top | Bottom | Left | Right

text \<open>\<^verbatim>\<open>getClosestSide(g: any)\<close>: \<open>None\<close> is a missing grip (\<^verbatim>\<open>undefined\<close> or
  \<^verbatim>\<open>null\<close>), for which \<^verbatim>\<open>!g\<close> holds.\<close>

definition getClosestSide :: "grip option \<Rightarrow> side" where
  "getClosestSide go =
     (case go of
        None \<Rightarrow> Bottom
      | Some g \<Rightarrow>
          let distLeft = g_x g;
              distRight = 100 - g_x g;
              distTop = 100 - g_y g;
              distBottom = g_y g;
              m = min (min (min distLeft distRight) distTop) distBottom
          in if m = distLeft then Left
             else if m = distRight then Right
             else if m = distTop then Top
             else Bottom)"

text \<open>\<^verbatim>\<open>getStandoff\<close>. The source's \<^verbatim>\<open>if (!side) return p\<close> and its last
  \<^verbatim>\<open>return p\<close> cannot be reached: \<^verbatim>\<open>getClosestSide\<close> returns one of the four
  side names, each a non-empty string.\<close>

definition getStandoff :: "point \<Rightarrow> grip option \<Rightarrow> point" where
  "getStandoff p go =
     (case getClosestSide go of
        Left \<Rightarrow> \<lparr>p_x = p_x p - STANDOFF_DIST, p_y = p_y p\<rparr>
      | Right \<Rightarrow> \<lparr>p_x = p_x p + STANDOFF_DIST, p_y = p_y p\<rparr>
      | Top \<Rightarrow> \<lparr>p_x = p_x p, p_y = p_y p - STANDOFF_DIST\<rparr>
      | Bottom \<Rightarrow> \<lparr>p_x = p_x p, p_y = p_y p + STANDOFF_DIST\<rparr>)"

subsection \<open>The routing pass\<close>

record rawLine =
  line_id :: int
  segments :: "lineSegment list"

text \<open>The loop \<^verbatim>\<open>for (let i = 0; i < points.length - 1; i++)\<close> that turns consecutive
  points into segments and drops the pairs of length zero.\<close>

fun buildSegments :: "int \<Rightarrow> point list \<Rightarrow> lineSegment list" where
  "buildSegments cid (a # b # rest) =
     (let diff = sub b a;
          l = len diff
      in (if l > 0
          then [\<lparr>seg_p1 = a, seg_p2 = b, lineId = cid, seg_dir = normalize_vec diff, seg_len = l\<rparr>]
          else []) @ buildSegments cid (b # rest))"
| "buildSegments cid [a] = []"
| "buildSegments cid [] = []"

text \<open>\<^verbatim>\<open>item.grips?.[i]\<close>.\<close>

definition gripAt :: "canvasItem \<Rightarrow> int \<Rightarrow> grip option" where
  "gripAt item i = (case grips item of None \<Rightarrow> None | Some gs \<Rightarrow> js_index gs i)"

text \<open>The body of the first loop, for one connection, in two parts. The second part,
  from the standoff logic to the segments: the line pushed on \<^verbatim>\<open>rawLines\<close>, with the
  bends stored in \<^verbatim>\<open>connectionWaypoints\<close>.\<close>

definition connectionLine ::
  "aspectFit \<Rightarrow> canvasItem list \<Rightarrow> connection \<Rightarrow> canvasItem \<Rightarrow> canvasItem \<Rightarrow> point \<Rightarrow> point
     \<Rightarrow> rawLine \<times> point list" where
  "connectionLine fit items conn source target start en =
     (let sourceGrip = gripAt source (sourceGripIndex conn);
          targetGrip = gripAt target (targetGripIndex conn);
          startStandoff = getStandoff start sourceGrip;
          endStandoff = getStandoff en targetGrip;
          bends = (case waypoints conn of
                     None \<Rightarrow> smartRoute fit startStandoff endStandoff items
                   | Some ws \<Rightarrow>
                       if length ws > 0 then ws
                       else smartRoute fit startStandoff endStandoff items);
          points = [start, startStandoff] @ bends @ [endStandoff, en]
      in (\<lparr>line_id = conn_id conn, segments = buildSegments (conn_id conn) points\<rparr>, bends))"

text \<open>The first part, up to the two tests that skip a connection: \<open>Inr None\<close> is
  \<^verbatim>\<open>continue\<close>. Both grip positions are computed before either is tested.\<close>

definition routeConnection ::
  "aspectFit \<Rightarrow> canvasItem list \<Rightarrow> connection \<Rightarrow> error + (rawLine \<times> point list) option" where
  "routeConnection fit items conn =
     (case find (\<lambda>i. item_id i = sourceItemId conn) items of
        None \<Rightarrow> Inr None
      | Some source \<Rightarrow>
     (case find (\<lambda>i. item_id i = targetItemId conn) items of
        None \<Rightarrow> Inr None
      | Some target \<Rightarrow>
     (case getGripPosition fit source (sourceGripIndex conn) of
        Inl e \<Rightarrow> Inl e
      | Inr startO \<Rightarrow>
     (case getGripPosition fit target (targetGripIndex conn) of
        Inl e \<Rightarrow> Inl e
      | Inr endO \<Rightarrow>
     (case startO of
        None \<Rightarrow> Inr None
      | Some start \<Rightarrow>
     (case endO of
        None \<Rightarrow> Inr None
      | Some en \<Rightarrow> Inr (Some (connectionLine fit items conn source target start en))))))))"

text \<open>The first loop, with its two accumulators \<^verbatim>\<open>rawLines\<close> and
  \<^verbatim>\<open>connectionWaypoints\<close>; an exception ends it.\<close>

fun buildRawLines ::
  "aspectFit \<Rightarrow> canvasItem list \<Rightarrow> connection list \<Rightarrow> rawLine list \<Rightarrow> (int \<rightharpoonup> point list)
     \<Rightarrow> error + rawLine list \<times> (int \<rightharpoonup> point list)" where
  "buildRawLines fit items [] rawLines cw = Inr (rawLines, cw)"
| "buildRawLines fit items (conn # rest) rawLines cw =
     (case routeConnection fit items conn of
        Inl e \<Rightarrow> Inl e
      | Inr None \<Rightarrow> buildRawLines fit items rest rawLines cw
      | Inr (Some (line, bends)) \<Rightarrow>
          buildRawLines fit items rest (rawLines @ [line]) (cw(conn_id conn \<mapsto> bends)))"

text \<open>The scan \<^verbatim>\<open>for (const otherSeg of allSegments)\<close>: an entry is the pair
  \<^verbatim>\<open>{ t, otherId }\<close>.\<close>

fun findIntersections :: "lineSegment \<Rightarrow> lineSegment list \<Rightarrow> (real \<times> int) list" where
  "findIntersections seg [] = []"
| "findIntersections seg (otherSeg # rest) =
     (if lineId otherSeg = lineId seg then findIntersections seg rest
      else if lineId seg < lineId otherSeg then findIntersections seg rest
      else case getIntersectionT seg otherSeg of
             None \<Rightarrow> findIntersections seg rest
           | Some t \<Rightarrow> (t, lineId otherSeg) # findIntersections seg rest)"

text \<open>The loop \<^verbatim>\<open>for (const inter of intersections)\<close>, with its variable
  \<^verbatim>\<open>currentT\<close>; it returns the commands appended to \<^verbatim>\<open>pathData\<close>.\<close>

fun bridgeLoop :: "lineSegment \<Rightarrow> real \<Rightarrow> (real \<times> int) list \<Rightarrow> pathCmd list" where
  "bridgeLoop seg currentT [] = []"
| "bridgeLoop seg currentT (crossing # rest) =
     (let centerT = fst crossing;
          startT = max currentT (centerT - BRIDGE_SIZE);
          endT = min (seg_len seg) (centerT + BRIDGE_SIZE)
      in if startT \<ge> endT then bridgeLoop seg currentT rest
         else
           let p1 = seg_p1 seg;
               dir = seg_dir seg;
               normal = perp dir;
               bridgeStartPos = add p1 (mult dir startT);
               bridgeEndPos = add p1 (mult dir endT);
               centerPos = add p1 (mult dir centerT);
               controlPos = add centerPos (mult normal (BRIDGE_HEIGHT * 2))
           in [L bridgeStartPos, Q controlPos bridgeEndPos] @ bridgeLoop seg endT rest)"

text \<open>The crossings of a segment, sorted by distance along it. The comparator
  \<^verbatim>\<open>(a, b) => a.t - b.t\<close> orders by \<open>t\<close>, and the sort is stable.\<close>

definition sortedIntersections :: "lineSegment \<Rightarrow> lineSegment list \<Rightarrow> (real \<times> int) list" where
  "sortedIntersections seg allSegments = sort_key fst (findIntersections seg allSegments)"

text \<open>What one segment appends to \<^verbatim>\<open>pathData\<close>: its bridges, then the line to its end.\<close>

definition segmentPath :: "lineSegment list \<Rightarrow> lineSegment \<Rightarrow> pathCmd list" where
  "segmentPath allSegments seg =
     bridgeLoop seg 0 (sortedIntersections seg allSegments) @ [L (seg_p2 seg)]"

definition linePath :: "lineSegment list \<Rightarrow> rawLine \<Rightarrow> pathCmd list" where
  "linePath allSegments line =
     (case segments line of [] \<Rightarrow> [] | s # _ \<Rightarrow> [M (seg_p1 s)])
     @ concat (map (segmentPath allSegments) (segments line))"

text \<open>\<^verbatim>\<open>Math.atan2(y, x)\<close> on the reals.\<close>

definition atan2 :: "real \<Rightarrow> real \<Rightarrow> real" where
  "atan2 b a =
     (if a > 0 then arctan (b / a)
      else if a < 0 then (if b \<ge> 0 then arctan (b / a) + pi else arctan (b / a) - pi)
      else if b > 0 then pi / 2
      else if b < 0 then - pi / 2
      else 0)"

definition lineMeta :: "lineSegment list \<Rightarrow> (int \<rightharpoonup> point list) \<Rightarrow> rawLine \<Rightarrow> pathMetadata" where
  "lineMeta allSegments cw line =
     (let segs = segments line;
          arrowOffset = 45 / 10
      in \<lparr>pathData = linePath allSegments line,
          endPoint =
            (if length segs > 0
             then Some \<lparr>p_x = p_x (seg_p2 (last segs)) - p_x (seg_dir (last segs)) * arrowOffset,
                        p_y = p_y (seg_p2 (last segs)) - p_y (seg_dir (last segs)) * arrowOffset\<rparr>
             else None),
          arrowAngle =
            (if length segs > 0
             then atan2 (p_y (seg_dir (last segs))) (p_x (seg_dir (last segs))) * (180 / pi) + 90
             else 0),
          meta_waypoints = cw (line_id line)\<rparr>)"

text \<open>The second loop: \<^verbatim>\<open>finalPaths[line.id] = ...\<close> for each raw line in order.\<close>

fun fillPaths ::
  "lineSegment list \<Rightarrow> (int \<rightharpoonup> point list) \<Rightarrow> rawLine list \<Rightarrow> (int \<rightharpoonup> pathMetadata)
     \<Rightarrow> (int \<rightharpoonup> pathMetadata)" where
  "fillPaths allSegments cw [] finalPaths = finalPaths"
| "fillPaths allSegments cw (line # rest) finalPaths =
     fillPaths allSegments cw rest (finalPaths(line_id line \<mapsto> lineMeta allSegments cw line))"

definition calculateManualPathsWithBridges ::
  "aspectFit \<Rightarrow> connection list \<Rightarrow> canvasItem list \<Rightarrow> error + (int \<rightharpoonup> pathMetadata)" where
  "calculateManualPathsWithBridges fit connections items =
     (case buildRawLines fit items connections [] Map.empty of
        Inl e \<Rightarrow> Inl e
      | Inr (rawLines, cw) \<Rightarrow>
          let allSegments = concat (map segments rawLines)
          in Inr (fillPaths allSegments cw rawLines Map.empty))"

subsection \<open>Derived notions used to state the properties\<close>

text \<open>The bridges the loop of \<open>bridgeLoop\<close> accepts, as triples
  \<open>(startT, centerT, endT)\<close>: the same recursion, returning the intervals in place of the
  commands (lemma \<open>bridgeLoop_accepted\<close> relates the two).\<close>

fun acceptedBridges :: "lineSegment \<Rightarrow> real \<Rightarrow> (real \<times> int) list \<Rightarrow> (real \<times> real \<times> real) list" where
  "acceptedBridges seg currentT [] = []"
| "acceptedBridges seg currentT (crossing # rest) =
     (let centerT = fst crossing;
          startT = max currentT (centerT - BRIDGE_SIZE);
          endT = min (seg_len seg) (centerT + BRIDGE_SIZE)
      in if startT \<ge> endT then acceptedBridges seg currentT rest
         else (startT, centerT, endT) # acceptedBridges seg endT rest)"

text \<open>The two commands the source emits for an accepted bridge.\<close>

definition bridgeCommands :: "lineSegment \<Rightarrow> real \<times> real \<times> real \<Rightarrow> pathCmd list" where
  "bridgeCommands seg b =
     (case b of (startT, centerT, endT) \<Rightarrow>
        [L (add (seg_p1 seg) (mult (seg_dir seg) startT)),
         Q (add (add (seg_p1 seg) (mult (seg_dir seg) centerT))
                (mult (perp (seg_dir seg)) (BRIDGE_HEIGHT * 2)))
           (add (seg_p1 seg) (mult (seg_dir seg) endT))])"





text \<open>The connections the first loop keeps, with their lines, and the test for one
  connection.\<close>

fun routedLines :: "aspectFit \<Rightarrow> canvasItem list \<Rightarrow> connection list \<Rightarrow> (rawLine \<times> point list) list" where
  "routedLines fit items [] = []"
| "routedLines fit items (conn # rest) =
     (case routeConnection fit items conn of
        Inr (Some lb) \<Rightarrow> lb # routedLines fit items rest
      | _ \<Rightarrow> routedLines fit items rest)"

definition routable :: "aspectFit \<Rightarrow> canvasItem list \<Rightarrow> connection \<Rightarrow> bool" where
  "routable fit items conn =
     (case routeConnection fit items conn of Inr (Some lb) \<Rightarrow> True | _ \<Rightarrow> False)"

text \<open>Reading a result: the path of one connection, and the pool of segments.\<close>

definition pathOf :: "error + (int \<rightharpoonup> pathMetadata) \<Rightarrow> int \<Rightarrow> pathCmd list option" where
  "pathOf r k = (case r of Inl e \<Rightarrow> None | Inr out \<Rightarrow> map_option pathData (out k))"

definition segmentsOf :: "error + rawLine list \<times> (int \<rightharpoonup> point list) \<Rightarrow> lineSegment list option" where
  "segmentsOf r =
     (case r of Inl e \<Rightarrow> None
      | Inr (rawLines, cw) \<Rightarrow> Some (concat (map segments rawLines)))"

subsection \<open>An example diagram\<close>

text \<open>
  Six boxes of 10 by 10 with one grip each and three wires between them, all routed
  automatically: two vertical wires, at \<open>x = a\<close> and \<open>x = b\<close>, running from \<open>y = -50\<close> to
  \<open>y = 50\<close>, and one horizontal wire from \<open>x = -20\<close> to \<open>x = 120\<close> at \<open>y = 0\<close>. The ids
  of the three wires are parameters.
\<close>

definition box :: "int \<Rightarrow> real \<Rightarrow> real \<Rightarrow> grip \<Rightarrow> canvasItem" where
  "box i a b g = \<lparr>item_id = i, item_x = a, item_y = b, item_width = 10, item_height = 10,
                  naturalWidth = 10, naturalHeight = 10, grips = Some [g]\<rparr>"

definition exampleItems :: "real \<Rightarrow> real \<Rightarrow> canvasItem list" where
  "exampleItems a b =
     [box 1 (a - 5) (- 60) \<lparr>g_x = 50, g_y = 0\<rparr>,
      box 2 (a - 5) 50 \<lparr>g_x = 50, g_y = 100\<rparr>,
      box 3 (b - 5) (- 60) \<lparr>g_x = 50, g_y = 0\<rparr>,
      box 4 (b - 5) 50 \<lparr>g_x = 50, g_y = 100\<rparr>,
      box 5 (- 30) (- 5) \<lparr>g_x = 100, g_y = 50\<rparr>,
      box 6 120 (- 5) \<lparr>g_x = 0, g_y = 50\<rparr>]"

definition wire :: "int \<Rightarrow> int \<Rightarrow> int \<Rightarrow> connection" where
  "wire i s t = \<lparr>conn_id = i, sourceItemId = s, sourceGripIndex = 0,
                 targetItemId = t, targetGripIndex = 0, waypoints = None\<rparr>"

definition exampleConnections :: "int \<Rightarrow> int \<Rightarrow> int \<Rightarrow> connection list" where
  "exampleConnections i j k = [wire i 1 2, wire j 3 4, wire k 5 6]"

definition mkSeg :: "int \<Rightarrow> real \<Rightarrow> real \<Rightarrow> real \<Rightarrow> real \<Rightarrow> real \<Rightarrow> real \<Rightarrow> real \<Rightarrow> lineSegment" where
  "mkSeg i x1 y1 x2 y2 dx dy l =
     \<lparr>seg_p1 = \<lparr>p_x = x1, p_y = y1\<rparr>, seg_p2 = \<lparr>p_x = x2, p_y = y2\<rparr>, lineId = i,
      seg_dir = \<lparr>p_x = dx, p_y = dy\<rparr>, seg_len = l\<rparr>"

definition verticalWire :: "int \<Rightarrow> real \<Rightarrow> lineSegment list" where
  "verticalWire i c =
     [mkSeg i c (- 50) c (- 30) 0 1 20, mkSeg i c (- 30) c 30 0 1 60, mkSeg i c 30 c 50 0 1 20]"

definition horizontalWire :: "int \<Rightarrow> lineSegment list" where
  "horizontalWire i =
     [mkSeg i (- 20) 0 0 0 1 0 20, mkSeg i 0 0 100 0 1 0 100, mkSeg i 100 0 120 0 1 0 20]"

definition exampleSegments :: "int \<Rightarrow> int \<Rightarrow> int \<Rightarrow> real \<Rightarrow> real \<Rightarrow> lineSegment list" where
  "exampleSegments i j k a b = verticalWire i a @ verticalWire j b @ horizontalWire k"

text \<open>A connection of the example whose source grip index is \<open>-1\<close>.\<close>

definition badWire :: connection where
  "badWire = \<lparr>conn_id = 7, sourceItemId = 1, sourceGripIndex = - 1,
              targetItemId = 2, targetGripIndex = 0, waypoints = None\<rparr>"

section \<open>Properties\<close>

subsection \<open>Standoff\<close>

text \<open>
  Claim C5. For a grip \<open>g\<close>, \<open>getStandoff\<close> moves the point by exactly 20 units along the
  axis of the grip's nearest side: left gives \<open>x - 20\<close>, right \<open>x + 20\<close>, top \<open>y - 20\<close>,
  bottom \<open>y + 20\<close>. The nearest side is the first, in the order left, right, top, bottom,
  whose distance is minimal among \<open>distLeft = g.x\<close>, \<open>distRight = 100 - g.x\<close>,
  \<open>distTop = 100 - g.y\<close> and \<open>distBottom = g.y\<close>.
\<close>

theorem getStandoff_nearest_side:
  "getStandoff p (Some g) =
     (let distLeft = g_x g; distRight = 100 - g_x g;
          distTop = 100 - g_y g; distBottom = g_y g
      in if distLeft \<le> distRight \<and> distLeft \<le> distTop \<and> distLeft \<le> distBottom
         then \<lparr>p_x = p_x p - 20, p_y = p_y p\<rparr>
         else if distRight \<le> distLeft \<and> distRight \<le> distTop \<and> distRight \<le> distBottom
         then \<lparr>p_x = p_x p + 20, p_y = p_y p\<rparr>
         else if distTop \<le> distLeft \<and> distTop \<le> distRight \<and> distTop \<le> distBottom
         then \<lparr>p_x = p_x p, p_y = p_y p - 20\<rparr>
         else \<lparr>p_x = p_x p, p_y = p_y p + 20\<rparr>)"
  unfolding getStandoff_def getClosestSide_def STANDOFF_DIST_def Let_def
  by (simp add: min_def)

text \<open>
  Claim C10. With a missing grip (\<^verbatim>\<open>undefined\<close> or \<^verbatim>\<open>null\<close>), \<open>getClosestSide\<close>
  falls back to the bottom side, and \<open>getStandoff\<close> returns the point moved down by 20,
  \<open>(p.x, p.y + 20)\<close>, not the point itself.
\<close>

theorem getStandoff_missing_grip:
  "getClosestSide None = Bottom \<and> getStandoff p None = \<lparr>p_x = p_x p, p_y = p_y p + 20\<rparr>"
  by (simp add: getStandoff_def getClosestSide_def STANDOFF_DIST_def)

subsection \<open>Grip resolver\<close>

text \<open>For an index that is not negative, the result is \<^verbatim>\<open>null\<close> exactly when the item
  has no grips array or the index is at or beyond its length.\<close>

lemma getGripPosition_null_iff:
  "0 \<le> i \<Longrightarrow> getGripPosition fit item i = Inr None \<longleftrightarrow>
     (case grips item of None \<Rightarrow> True | Some gs \<Rightarrow> i \<ge> int (length gs))"
  by (auto simp: getGripPosition_def js_index_def Let_def split: option.splits)

lemma getGripPosition_negative:
  "grips item = Some gs \<Longrightarrow> i < 0 \<Longrightarrow> getGripPosition fit item i = Inl TypeError"
  by (simp add: getGripPosition_def js_index_def)

text \<open>
  Claim C7 (the code departs from it). The claim: for every grip index that does not
  address an element of \<^verbatim>\<open>item.grips\<close>, \<open>getGripPosition\<close> returns \<^verbatim>\<open>null\<close> and does
  not crash. The guard \<^verbatim>\<open>gripIndex >= item.grips.length\<close> tests the upper end only:
  at index \<open>-1\<close> on an item with one grip the function reads \<^verbatim>\<open>grip.x\<close> of
  \<^verbatim>\<open>undefined\<close> and throws.
\<close>

theorem getGripPosition_negative_index_throws:
  "getGripPosition fit
     \<lparr>item_id = 1, item_x = 0, item_y = 0, item_width = 200, item_height = 100,
      naturalWidth = 200, naturalHeight = 100, grips = Some [\<lparr>g_x = 0, g_y = 0\<rparr>]\<rparr> (- 1)
   = Inl TypeError"
  by (simp add: getGripPosition_def js_index_def)

text \<open>
  Claim C6. For an item and an in-range grip index, \<open>getGripPosition\<close> returns
  \<open>x = item.x + renderX + (grip.x / 100) * renderWidth\<close> and
  \<open>y = item.y + renderY + ((100 - grip.y) / 100) * renderHeight\<close>, where the render
  rectangle is the item's aspect-fit rectangle. In particular, with width 200, height 100,
  natural width 200 and natural height 100, a grip at \<open>(0, 0)\<close> resolves to
  \<open>(item.x, item.y + 100)\<close> and a grip at \<open>(100, 100)\<close> to \<open>(item.x + 200, item.y)\<close>.
  The formula holds for any aspect-fit function; the two positions are computed with
  \<open>calculateAspectFit\<close> as the spec describes it.
\<close>

theorem getGripPosition_formula:
  assumes "grips item = Some gs" and "0 \<le> i" and "i < int (length gs)"
  shows "(let r = fit (item_width item) (item_height item) (naturalWidth item) (naturalHeight item);
              g = gs ! nat i
          in getGripPosition fit item i =
               Inr (Some \<lparr>p_x = item_x item + r_x r + (g_x g / 100) * r_width r,
                          p_y = item_y item + r_y r + ((100 - g_y g) / 100) * r_height r\<rparr>))
       \<and> (item_width item = 200 \<and> item_height item = 100 \<and>
          naturalWidth item = 200 \<and> naturalHeight item = 100 \<longrightarrow>
            (gs ! nat i = \<lparr>g_x = 0, g_y = 0\<rparr> \<longrightarrow>
               getGripPosition calculateAspectFit item i =
                 Inr (Some \<lparr>p_x = item_x item, p_y = item_y item + 100\<rparr>)) \<and>
            (gs ! nat i = \<lparr>g_x = 100, g_y = 100\<rparr> \<longrightarrow>
               getGripPosition calculateAspectFit item i =
                 Inr (Some \<lparr>p_x = item_x item + 200, p_y = item_y item\<rparr>)))"
  using assms
  by (simp add: getGripPosition_def js_index_def Let_def calculateAspectFit_def)

theorem getGripPosition_formula_witness:
  "getGripPosition calculateAspectFit
     \<lparr>item_id = 1, item_x = 10, item_y = 20, item_width = 200, item_height = 100,
      naturalWidth = 200, naturalHeight = 100,
      grips = Some [\<lparr>g_x = 0, g_y = 0\<rparr>, \<lparr>g_x = 100, g_y = 100\<rparr>]\<rparr> 0
     = Inr (Some \<lparr>p_x = 10, p_y = 120\<rparr>)
   \<and> getGripPosition calculateAspectFit
     \<lparr>item_id = 1, item_x = 10, item_y = 20, item_width = 200, item_height = 100,
      naturalWidth = 200, naturalHeight = 100,
      grips = Some [\<lparr>g_x = 0, g_y = 0\<rparr>, \<lparr>g_x = 100, g_y = 100\<rparr>]\<rparr> 1
     = Inr (Some \<lparr>p_x = 210, p_y = 20\<rparr>)"
proof -
  let ?gs = "[\<lparr>g_x = 0, g_y = 0\<rparr>, \<lparr>g_x = 100, g_y = 100::real\<rparr>]"
  let ?item = "\<lparr>item_id = 1, item_x = 10, item_y = 20, item_width = 200, item_height = 100,
      naturalWidth = 200, naturalHeight = 100, grips = Some ?gs\<rparr>"
  have g: "grips ?item = Some ?gs" by simp
  have "getGripPosition calculateAspectFit ?item 0 = Inr (Some \<lparr>p_x = 10, p_y = 120\<rparr>)"
    using getGripPosition_formula[OF g, of 0 calculateAspectFit] by simp
  moreover have "getGripPosition calculateAspectFit ?item 1 = Inr (Some \<lparr>p_x = 210, p_y = 20\<rparr>)"
    using getGripPosition_formula[OF g, of 1 calculateAspectFit] by simp
  ultimately show ?thesis by simp
qed

subsection \<open>Segment intersection\<close>

text \<open>Two linear equations with a non-zero determinant have one solution.\<close>

lemma cramer:
  fixes rx ry sx sy qx qy t u :: real
  assumes d: "rx * sy - ry * sx \<noteq> 0"
    and ex: "t * rx - u * sx = qx" and ey: "t * ry - u * sy = qy"
  shows "t = (qx * sy - qy * sx) / (rx * sy - ry * sx)"
    and "u = (qx * ry - qy * rx) / (rx * sy - ry * sx)"
proof -
  have "t * (rx * sy - ry * sx) = qx * sy - qy * sx"
    unfolding ex[symmetric] ey[symmetric] by (simp add: algebra_simps)
  then show "t = (qx * sy - qy * sx) / (rx * sy - ry * sx)"
    using d by (simp add: field_simps)
  have "u * (rx * sy - ry * sx) = qx * ry - qy * rx"
    unfolding ex[symmetric] ey[symmetric] by (simp add: algebra_simps)
  then show "u = (qx * ry - qy * rx) / (rx * sy - ry * sx)"
    using d by (simp add: field_simps)
qed

text \<open>
  Claim C4. \<open>getIntersectionT\<close> reports no crossing for two segments whose vectors
  \<open>r = p2 - p1\<close> and \<open>s\<close> have a cross product of absolute value below \<open>1e-5\<close>. Otherwise
  the lines meet at one pair of parameters, \<open>P + t r = Q + u s\<close>, and a crossing is
  reported exactly when both \<open>t\<close> and \<open>u\<close> lie strictly between \<open>0.001\<close> and
  \<open>1 - 0.001\<close>; the value returned is \<open>t\<close> times the first segment's length.
\<close>

theorem getIntersectionT_crossing:
  "(let p = seg_p1 seg1; r = sub (seg_p2 seg1) (seg_p1 seg1);
        q = seg_p1 seg2; s = sub (seg_p2 seg2) (seg_p1 seg2);
        rXs = p_x r * p_y s - p_y r * p_x s
    in (\<bar>rXs\<bar> < 1 / 100000 \<longrightarrow> getIntersectionT seg1 seg2 = None) \<and>
       (\<not> \<bar>rXs\<bar> < 1 / 100000 \<longrightarrow>
          (\<exists>t u. add p (mult r t) = add q (mult s u)) \<and>
          (\<forall>t u. add p (mult r t) = add q (mult s u) \<longrightarrow>
             getIntersectionT seg1 seg2 =
               (if 1 / 1000 < t \<and> t < 1 - 1 / 1000 \<and> 1 / 1000 < u \<and> u < 1 - 1 / 1000
                then Some (t * seg_len seg1) else None))))"
proof -
  define rx where "rx = p_x (seg_p2 seg1) - p_x (seg_p1 seg1)"
  define ry where "ry = p_y (seg_p2 seg1) - p_y (seg_p1 seg1)"
  define sx where "sx = p_x (seg_p2 seg2) - p_x (seg_p1 seg2)"
  define sy where "sy = p_y (seg_p2 seg2) - p_y (seg_p1 seg2)"
  define qx where "qx = p_x (seg_p1 seg2) - p_x (seg_p1 seg1)"
  define qy where "qy = p_y (seg_p1 seg2) - p_y (seg_p1 seg1)"
  define d where "d = rx * sy - ry * sx"
  define t0 where "t0 = (qx * sy - qy * sx) / d"
  define u0 where "u0 = (qx * ry - qy * rx) / d"
  have code: "getIntersectionT seg1 seg2 =
      (if \<bar>d\<bar> < 1 / 100000 then None
       else if 1 / 1000 < t0 \<and> t0 < 1 - 1 / 1000 \<and> 1 / 1000 < u0 \<and> u0 < 1 - 1 / 1000
            then Some (t0 * seg_len seg1) else None)"
    unfolding getIntersectionT_def Let_def sub_def d_def t0_def u0_def
      rx_def ry_def sx_def sy_def qx_def qy_def
    by simp
  have meet: "add (seg_p1 seg1) (mult (sub (seg_p2 seg1) (seg_p1 seg1)) t)
        = add (seg_p1 seg2) (mult (sub (seg_p2 seg2) (seg_p1 seg2)) u)
      \<longleftrightarrow> t * rx - u * sx = qx \<and> t * ry - u * sy = qy" for t u
    unfolding add_def mult_def sub_def rx_def ry_def sx_def sy_def qx_def qy_def
    by (auto simp: algebra_simps)
  have uniq: "t = t0 \<and> u = u0" if "d \<noteq> 0" "t * rx - u * sx = qx" "t * ry - u * sy = qy" for t u
    using cramer[of rx sy ry sx t u qx qy] that unfolding d_def t0_def u0_def by simp
  have exist: "t0 * rx - u0 * sx = qx \<and> t0 * ry - u0 * sy = qy" if "d \<noteq> 0"
  proof -
    have nx: "(qx * sy - qy * sx) * rx - (qx * ry - qy * rx) * sx = qx * d"
      and ny: "(qx * sy - qy * sx) * ry - (qx * ry - qy * rx) * sy = qy * d"
      by (simp_all add: d_def algebra_simps)
    have "t0 * rx - u0 * sx = ((qx * sy - qy * sx) * rx - (qx * ry - qy * rx) * sx) / d"
      by (simp add: t0_def u0_def algebra_simps diff_divide_distrib)
    moreover have "t0 * ry - u0 * sy = ((qx * sy - qy * sx) * ry - (qx * ry - qy * rx) * sy) / d"
      by (simp add: t0_def u0_def algebra_simps diff_divide_distrib)
    ultimately show ?thesis
      unfolding nx ny using that by simp
  qed
  have par: "\<bar>d\<bar> < 1 / 100000 \<longrightarrow> getIntersectionT seg1 seg2 = None"
    using code by simp
  have nonpar: "\<not> \<bar>d\<bar> < 1 / 100000 \<longrightarrow>
          (\<exists>t u. t * rx - u * sx = qx \<and> t * ry - u * sy = qy) \<and>
          (\<forall>t u. t * rx - u * sx = qx \<and> t * ry - u * sy = qy \<longrightarrow>
             getIntersectionT seg1 seg2 =
               (if 1 / 1000 < t \<and> t < 1 - 1 / 1000 \<and> 1 / 1000 < u \<and> u < 1 - 1 / 1000
                then Some (t * seg_len seg1) else None))"
  proof (intro impI conjI allI)
    assume np: "\<not> \<bar>d\<bar> < 1 / 100000"
    then have d0: "d \<noteq> 0" by auto
    show "\<exists>t u. t * rx - u * sx = qx \<and> t * ry - u * sy = qy"
      using exist[OF d0] by blast
    fix t u assume "t * rx - u * sx = qx \<and> t * ry - u * sy = qy"
    then have "t = t0 \<and> u = u0" using uniq[OF d0] by blast
    then show "getIntersectionT seg1 seg2 =
               (if 1 / 1000 < t \<and> t < 1 - 1 / 1000 \<and> 1 / 1000 < u \<and> u < 1 - 1 / 1000
                then Some (t * seg_len seg1) else None)"
      using code np by simp
  qed
  have dd: "d = p_x (sub (seg_p2 seg1) (seg_p1 seg1)) * p_y (sub (seg_p2 seg2) (seg_p1 seg2))
              - p_y (sub (seg_p2 seg1) (seg_p1 seg1)) * p_x (sub (seg_p2 seg2) (seg_p1 seg2))"
    by (simp add: d_def sub_def rx_def ry_def sx_def sy_def)
  show ?thesis
    unfolding Let_def meet dd[symmetric] using par nonpar by blast
qed

theorem getIntersectionT_crossing_witness:
  "getIntersectionT
     \<lparr>seg_p1 = \<lparr>p_x = 0, p_y = 0\<rparr>, seg_p2 = \<lparr>p_x = 100, p_y = 0\<rparr>, lineId = 2,
      seg_dir = \<lparr>p_x = 1, p_y = 0\<rparr>, seg_len = 100\<rparr>
     \<lparr>seg_p1 = \<lparr>p_x = 50, p_y = - 50\<rparr>, seg_p2 = \<lparr>p_x = 50, p_y = 50\<rparr>, lineId = 1,
      seg_dir = \<lparr>p_x = 0, p_y = 1\<rparr>, seg_len = 100\<rparr> = Some 50
   \<and> getIntersectionT
     \<lparr>seg_p1 = \<lparr>p_x = 0, p_y = 0\<rparr>, seg_p2 = \<lparr>p_x = 100, p_y = 0\<rparr>, lineId = 2,
      seg_dir = \<lparr>p_x = 1, p_y = 0\<rparr>, seg_len = 100\<rparr>
     \<lparr>seg_p1 = \<lparr>p_x = 0, p_y = 5\<rparr>, seg_p2 = \<lparr>p_x = 100, p_y = 5\<rparr>, lineId = 1,
      seg_dir = \<lparr>p_x = 1, p_y = 0\<rparr>, seg_len = 100\<rparr> = None"
proof -
  let ?a = "\<lparr>seg_p1 = \<lparr>p_x = 0, p_y = 0\<rparr>, seg_p2 = \<lparr>p_x = 100, p_y = 0\<rparr>, lineId = 2,
      seg_dir = \<lparr>p_x = 1, p_y = 0\<rparr>, seg_len = 100::real\<rparr>"
  let ?b = "\<lparr>seg_p1 = \<lparr>p_x = 50, p_y = - 50\<rparr>, seg_p2 = \<lparr>p_x = 50, p_y = 50\<rparr>, lineId = 1,
      seg_dir = \<lparr>p_x = 0, p_y = 1\<rparr>, seg_len = 100::real\<rparr>"
  let ?c = "\<lparr>seg_p1 = \<lparr>p_x = 0, p_y = 5\<rparr>, seg_p2 = \<lparr>p_x = 100, p_y = 5\<rparr>, lineId = 1,
      seg_dir = \<lparr>p_x = 1, p_y = 0\<rparr>, seg_len = 100::real\<rparr>"
  have meet: "add (seg_p1 ?a) (mult (sub (seg_p2 ?a) (seg_p1 ?a)) (1 / 2))
            = add (seg_p1 ?b) (mult (sub (seg_p2 ?b) (seg_p1 ?b)) (1 / 2))"
    by (simp add: add_def mult_def sub_def)
  have "getIntersectionT ?a ?b = Some 50"
    using getIntersectionT_crossing[of ?a ?b] meet
    by (simp add: Let_def sub_def)
  moreover have "getIntersectionT ?a ?c = None"
    using getIntersectionT_crossing[of ?a ?c] by (simp add: Let_def sub_def)
  ultimately show ?thesis by simp
qed

subsection \<open>Router\<close>

lemma hitsAnyRect_iff:
  "hitsAnyRect a b obstacles \<longleftrightarrow> (\<exists>r \<in> set obstacles. segmentHitsRect a b r)"
  by (induction obstacles) auto

lemma hitsLoop_iff:
  "hitsLoop obstacles (p # ps) \<longleftrightarrow> (\<exists>(a, b) \<in> set (zip (p # ps) ps). hitsAnyRect a b obstacles)"
  by (induction ps arbitrary: p) auto

lemma segmentHitsRect_overlap:
  "segmentHitsRect a b r \<longleftrightarrow>
     r_x r \<le> max (p_x a) (p_x b) \<and> min (p_x a) (p_x b) \<le> r_x r + r_width r \<and>
     r_y r \<le> max (p_y a) (p_y b) \<and> min (p_y a) (p_y b) \<le> r_y r + r_height r"
  unfolding segmentHitsRect_def Let_def by auto

lemma zip_full: "zip (p # c @ [q]) (c @ [q]) = zip (p # c) (c @ [q])"
  by (induction c arbitrary: p) auto

lemma hitsObstacle_iff:
  "\<not> hitsObstacle obstacles start en c \<longleftrightarrow>
     (\<forall>(a, b) \<in> set (zip (start # c) (c @ [en])). \<forall>r \<in> set obstacles.
        \<not> (r_x r \<le> max (p_x a) (p_x b) \<and> min (p_x a) (p_x b) \<le> r_x r + r_width r \<and>
           r_y r \<le> max (p_y a) (p_y b) \<and> min (p_y a) (p_y b) \<le> r_y r + r_height r))"
  unfolding hitsObstacle_def hitsLoop_iff hitsAnyRect_iff zip_full segmentHitsRect_overlap
  by auto

lemma smartRoute_chain:
  "smartRoute fit start en items =
     (let obstacles = getItemRects fit items;
          midX = (p_x start + p_x en) / 2;
          midY = (p_y start + p_y en) / 2;
          c1 = [\<lparr>p_x = p_x en, p_y = p_y start\<rparr>];
          c2 = [\<lparr>p_x = p_x start, p_y = p_y en\<rparr>];
          c3 = [\<lparr>p_x = midX, p_y = p_y start\<rparr>, \<lparr>p_x = midX, p_y = p_y en\<rparr>];
          c4 = [\<lparr>p_x = p_x start, p_y = midY\<rparr>, \<lparr>p_x = p_x en, p_y = midY\<rparr>]
      in if \<not> hitsObstacle obstacles start en c1 then c1
         else if \<not> hitsObstacle obstacles start en c2 then c2
         else if \<not> hitsObstacle obstacles start en c3 then c3
         else if \<not> hitsObstacle obstacles start en c4 then c4
         else c1)"
  by (simp add: smartRoute_def candidates_def Let_def)

text \<open>
  Claim C2. \<open>smartRoute\<close> tries exactly four candidate bend sequences, in the order
  horizontal-then-vertical, vertical-then-horizontal, mid-X dogleg, mid-Y dogleg. A
  candidate is accepted iff none of its segments, from the start through the bends to the
  end, overlaps an obstacle rectangle in the bounding-box test. The first accepted
  candidate is returned; when all four are rejected the first candidate, the single bend
  at \<open>(end.x, start.y)\<close>, is returned. The result is never empty.
\<close>

theorem smartRoute_first_accepted:
  "(let obstacles = getItemRects fit items;
        midX = (p_x start + p_x en) / 2;
        midY = (p_y start + p_y en) / 2;
        c1 = [\<lparr>p_x = p_x en, p_y = p_y start\<rparr>];
        c2 = [\<lparr>p_x = p_x start, p_y = p_y en\<rparr>];
        c3 = [\<lparr>p_x = midX, p_y = p_y start\<rparr>, \<lparr>p_x = midX, p_y = p_y en\<rparr>];
        c4 = [\<lparr>p_x = p_x start, p_y = midY\<rparr>, \<lparr>p_x = p_x en, p_y = midY\<rparr>];
        accepted = (\<lambda>c. \<forall>(a, b) \<in> set (zip (start # c) (c @ [en])). \<forall>r \<in> set obstacles.
           \<not> (r_x r \<le> max (p_x a) (p_x b) \<and> min (p_x a) (p_x b) \<le> r_x r + r_width r \<and>
              r_y r \<le> max (p_y a) (p_y b) \<and> min (p_y a) (p_y b) \<le> r_y r + r_height r))
    in smartRoute fit start en items =
         (if accepted c1 then c1
          else if accepted c2 then c2
          else if accepted c3 then c3
          else if accepted c4 then c4
          else c1))
   \<and> smartRoute fit start en items \<noteq> []"
proof -
  have ne: "smartRoute fit start en items \<noteq> []"
    unfolding smartRoute_chain Let_def by simp
  show ?thesis
    using ne unfolding Let_def hitsObstacle_iff[symmetric]
    by (simp add: smartRoute_chain[unfolded Let_def])
qed

theorem smartRoute_first_accepted_witness:
  "smartRoute calculateAspectFit \<lparr>p_x = 0, p_y = 0\<rparr> \<lparr>p_x = 100, p_y = 100\<rparr>
     [\<lparr>item_id = 1, item_x = 90, item_y = - 10, item_width = 20, item_height = 20,
       naturalWidth = 20, naturalHeight = 20, grips = None\<rparr>]
   = [\<lparr>p_x = 0, p_y = 100\<rparr>]
   \<and> smartRoute calculateAspectFit \<lparr>p_x = 0, p_y = 0\<rparr> \<lparr>p_x = 100, p_y = 100\<rparr>
     [\<lparr>item_id = 1, item_x = - 50, item_y = - 50, item_width = 200, item_height = 200,
       naturalWidth = 200, naturalHeight = 200, grips = None\<rparr>]
   = [\<lparr>p_x = 100, p_y = 0\<rparr>]"
proof -
  let ?s = "\<lparr>p_x = 0, p_y = 0::real\<rparr>" and ?e = "\<lparr>p_x = 100, p_y = 100::real\<rparr>"
  let ?small = "[\<lparr>item_id = 1, item_x = 90, item_y = - 10, item_width = 20, item_height = 20,
       naturalWidth = 20, naturalHeight = 20, grips = None\<rparr>]"
  let ?big = "[\<lparr>item_id = 1, item_x = - 50, item_y = - 50, item_width = 200, item_height = 200,
       naturalWidth = 200, naturalHeight = 200, grips = None\<rparr>]"
  have "smartRoute calculateAspectFit ?s ?e ?small = [\<lparr>p_x = 0, p_y = 100\<rparr>]"
    using smartRoute_first_accepted[of calculateAspectFit ?small ?s ?e]
    by (simp add: getItemRects_def calculateAspectFit_def Let_def)
  moreover have "smartRoute calculateAspectFit ?s ?e ?big = [\<lparr>p_x = 100, p_y = 0\<rparr>]"
    using smartRoute_first_accepted[of calculateAspectFit ?big ?s ?e]
    by (simp add: getItemRects_def calculateAspectFit_def Let_def)
  ultimately show ?thesis by simp
qed

subsection \<open>The routing pass: structure\<close>

lemma bridgeLoop_accepted:
  "bridgeLoop seg cur xs = concat (map (bridgeCommands seg) (acceptedBridges seg cur xs))"
  by (induction xs arbitrary: cur) (auto simp: Let_def bridgeCommands_def)

lemma buildSegments_props:
  "seg \<in> set (buildSegments cid pts) \<Longrightarrow>
     lineId seg = cid \<and> 0 < seg_len seg \<and> seg_len seg = len (sub (seg_p2 seg) (seg_p1 seg))
     \<and> seg_dir seg = normalize_vec (sub (seg_p2 seg) (seg_p1 seg))
     \<and> (seg_p1 seg, seg_p2 seg) \<in> set (zip pts (tl pts))"
  by (induction cid pts rule: buildSegments.induct) (auto simp: Let_def split: if_splits)

lemma routeConnection_Some:
  assumes "routeConnection fit items conn = Inr (Some lb)"
  shows "\<exists>source target start en.
           find (\<lambda>i. item_id i = sourceItemId conn) items = Some source \<and>
           find (\<lambda>i. item_id i = targetItemId conn) items = Some target \<and>
           getGripPosition fit source (sourceGripIndex conn) = Inr (Some start) \<and>
           getGripPosition fit target (targetGripIndex conn) = Inr (Some en) \<and>
           lb = connectionLine fit items conn source target start en"
  using assms
  by (simp add: routeConnection_def split: option.splits sum.splits)

lemma routeConnection_line:
  assumes "routeConnection fit items conn = Inr (Some (line, bends))"
  shows "line_id line = conn_id conn"
    and "\<exists>pts. segments line = buildSegments (conn_id conn) pts"
proof -
  obtain source target start en
    where "(line, bends) = connectionLine fit items conn source target start en"
    using routeConnection_Some[OF assms] by blast
  then have l: "line = fst (connectionLine fit items conn source target start en)"
    by (metis fst_conv)
  show "line_id line = conn_id conn"
    unfolding l by (simp add: connectionLine_def Let_def del: buildSegments.simps)
  show "\<exists>pts. segments line = buildSegments (conn_id conn) pts"
    unfolding l by (simp add: connectionLine_def Let_def del: buildSegments.simps) blast
qed

lemma buildRawLines_routed:
  "buildRawLines fit items conns raw cw = Inr (raw', cw') \<Longrightarrow>
     raw' = raw @ map fst (routedLines fit items conns)"
proof (induction conns arbitrary: raw cw)
  case Nil
  then show ?case by simp
next
  case (Cons conn conns)
  show ?case
  proof (cases "routeConnection fit items conn")
    case (Inl e)
    with Cons.prems show ?thesis by simp
  next
    case (Inr r)
    show ?thesis
    proof (cases r)
      case None
      with Inr Cons.prems have "buildRawLines fit items conns raw cw = Inr (raw', cw')" by simp
      from Cons.IH[OF this] show ?thesis
        using Inr None by simp
    next
      case (Some lb)
      obtain line bends where lb: "lb = (line, bends)" by (cases lb)
      with Inr Some Cons.prems
      have "buildRawLines fit items conns (raw @ [line]) (cw(conn_id conn \<mapsto> bends)) = Inr (raw', cw')"
        by simp
      from Cons.IH[OF this] show ?thesis
        using Inr Some lb by simp
    qed
  qed
qed

lemma routedLines_set:
  "lb \<in> set (routedLines fit items conns) \<longleftrightarrow>
     (\<exists>conn \<in> set conns. routeConnection fit items conn = Inr (Some lb))"
  by (induction conns) (auto split: sum.splits option.splits)

lemma rawLines_origin:
  assumes "buildRawLines fit items conns [] Map.empty = Inr (rawLines, cw)"
  shows "line \<in> set rawLines \<longleftrightarrow>
     (\<exists>conn \<in> set conns. \<exists>bends. routeConnection fit items conn = Inr (Some (line, bends)))"
  using buildRawLines_routed[OF assms] by (force simp: routedLines_set)

lemma rawLines_segments:
  assumes "buildRawLines fit items conns [] Map.empty = Inr (rawLines, cw)"
    and "line \<in> set rawLines" and "seg \<in> set (segments line)"
  shows "lineId seg = line_id line" and "0 < seg_len seg"
proof -
  obtain conn bends where r: "routeConnection fit items conn = Inr (Some (line, bends))"
    using assms(1,2) rawLines_origin by blast
  obtain pts where "segments line = buildSegments (conn_id conn) pts"
    using routeConnection_line(2)[OF r] by blast
  with assms(3) have "lineId seg = conn_id conn \<and> 0 < seg_len seg"
    using buildSegments_props by metis
  then show "lineId seg = line_id line" and "0 < seg_len seg"
    using routeConnection_line(1)[OF r] by simp_all
qed

lemma getIntersectionT_range:
  assumes "getIntersectionT seg other = Some t" and "0 < seg_len seg"
  shows "0 < t \<and> t < seg_len seg"
proof -
  obtain tp where tp: "t = tp * seg_len seg" "1 / 1000 < tp" "tp < 1 - 1 / 1000"
    using assms(1) unfolding getIntersectionT_def Let_def
    by (simp only: option.simps split: if_splits) blast
  have "0 < tp" "tp < 1" using tp by simp_all
  then show ?thesis using assms(2) tp(1) by simp
qed

lemma findIntersections_set:
  "(t, k) \<in> set (findIntersections seg allSegments) \<longleftrightarrow>
     (\<exists>other \<in> set allSegments. lineId other = k \<and> k < lineId seg \<and>
        getIntersectionT seg other = Some t)"
  by (induction allSegments) (auto split: option.splits)

lemma sortedIntersections_set:
  "(t, k) \<in> set (sortedIntersections seg allSegments) \<longleftrightarrow>
     (\<exists>other \<in> set allSegments. lineId other = k \<and> k < lineId seg \<and>
        getIntersectionT seg other = Some t)"
  by (simp add: sortedIntersections_def findIntersections_set)

lemma acceptedBridges_index:
  assumes "0 \<le> cur" and "\<forall>(t, k) \<in> set xs. 0 < t \<and> t < seg_len seg"
    and "bs = acceptedBridges seg cur xs" and "n < length bs"
  shows "case bs ! n of (startT, centerT, endT) \<Rightarrow>
           startT = max (if n = 0 then cur else snd (snd (bs ! (n - 1)))) (centerT - BRIDGE_SIZE) \<and>
           endT = min (seg_len seg) (centerT + BRIDGE_SIZE) \<and>
           startT < endT \<and> 0 < centerT \<and> centerT < seg_len seg"
  using assms
proof (induction xs arbitrary: cur bs n)
  case Nil
  then show ?case by simp
next
  case (Cons x xs)
  let ?c = "fst x"
  let ?s = "max cur (?c - BRIDGE_SIZE)"
  let ?e = "min (seg_len seg) (?c + BRIDGE_SIZE)"
  have xs: "\<forall>(t, k) \<in> set xs. 0 < t \<and> t < seg_len seg" using Cons.prems(2) by simp
  have c: "0 < ?c" "?c < seg_len seg" using Cons.prems(2) by (auto simp: case_prod_beta)
  show ?case
  proof (cases "?s \<ge> ?e")
    case True
    then have "bs = acceptedBridges seg cur xs" using Cons.prems(3) by (simp add: Let_def)
    from Cons.IH[OF Cons.prems(1) xs this Cons.prems(4)] show ?thesis .
  next
    case False
    then have bs: "bs = (?s, ?c, ?e) # acceptedBridges seg ?e xs"
      using Cons.prems(3) by (simp add: Let_def)
    have e0: "0 \<le> ?e" using c by (simp add: BRIDGE_SIZE_def)
    show ?thesis
    proof (cases n)
      case 0
      have se: "?s < ?e" using False by (simp only: not_le)
      show ?thesis unfolding 0 bs using se c by simp
    next
      case (Suc m)
      then have m: "m < length (acceptedBridges seg ?e xs)" using Cons.prems(4) bs by simp
      from Cons.IH[OF e0 xs refl m] show ?thesis
        using bs Suc by (cases m) (simp_all)
    qed
  qed
qed








lemma find_sat: "find P xs = Some x \<Longrightarrow> P x \<and> x \<in> set xs"
  by (induction xs) (auto split: if_splits)



lemma dom_fillPaths:
  "dom (fillPaths allSegments cw ls m) = dom m \<union> line_id ` set ls"
  by (induction ls arbitrary: m) auto

lemma routedLines_ids:
  "map (\<lambda>lb. line_id (fst lb)) (routedLines fit items conns)
     = map conn_id (filter (routable fit items) conns)"
proof (induction conns)
  case Nil
  then show ?case by simp
next
  case (Cons c cs)
  show ?case
  proof (cases "routeConnection fit items c")
    case (Inl e)
    then show ?thesis using Cons.IH by (simp add: routable_def)
  next
    case (Inr r)
    show ?thesis
    proof (cases r)
      case None
      then show ?thesis using Cons.IH Inr by (simp add: routable_def)
    next
      case (Some lb)
      obtain line bends where "lb = (line, bends)" by (cases lb)
      then show ?thesis using Cons.IH Inr Some routeConnection_line(1)[of fit items c line bends]
        by (simp add: routable_def)
    qed
  qed
qed

lemma rawLines_ids:
  assumes "buildRawLines fit items conns [] Map.empty = Inr (rawLines, cw)"
  shows "map line_id rawLines = map conn_id (filter (routable fit items) conns)"
  using buildRawLines_routed[OF assms] routedLines_ids[of fit items conns] by (simp add: comp_def)


lemma pathData_lineMeta: "pathData (lineMeta allSegments cw line) = linePath allSegments line"
  by (simp add: lineMeta_def Let_def)


subsection \<open>The example diagram, evaluated\<close>

lemma len_axis_x: "len \<lparr>p_x = a, p_y = 0\<rparr> = \<bar>a\<bar>"
  by (simp add: len_def)

lemma len_axis_y: "len \<lparr>p_x = 0, p_y = b\<rparr> = \<bar>b\<bar>"
  by (simp add: len_def)

lemma item_lookup:
  "find (\<lambda>i. item_id i = 1) (exampleItems a b) = Some (box 1 (a - 5) (- 60) \<lparr>g_x = 50, g_y = 0\<rparr>)"
  "find (\<lambda>i. item_id i = 2) (exampleItems a b) = Some (box 2 (a - 5) 50 \<lparr>g_x = 50, g_y = 100\<rparr>)"
  "find (\<lambda>i. item_id i = 3) (exampleItems a b) = Some (box 3 (b - 5) (- 60) \<lparr>g_x = 50, g_y = 0\<rparr>)"
  "find (\<lambda>i. item_id i = 4) (exampleItems a b) = Some (box 4 (b - 5) 50 \<lparr>g_x = 50, g_y = 100\<rparr>)"
  "find (\<lambda>i. item_id i = 5) (exampleItems a b) = Some (box 5 (- 30) (- 5) \<lparr>g_x = 100, g_y = 50\<rparr>)"
  "find (\<lambda>i. item_id i = 6) (exampleItems a b) = Some (box 6 120 (- 5) \<lparr>g_x = 0, g_y = 50\<rparr>)"
  by (simp_all add: exampleItems_def box_def)

lemma example_rects:
  "getItemRects calculateAspectFit (exampleItems a b) =
     [\<lparr>r_x = a - 5, r_y = - 60, r_width = 10, r_height = 10\<rparr>,
      \<lparr>r_x = a - 5, r_y = 50, r_width = 10, r_height = 10\<rparr>,
      \<lparr>r_x = b - 5, r_y = - 60, r_width = 10, r_height = 10\<rparr>,
      \<lparr>r_x = b - 5, r_y = 50, r_width = 10, r_height = 10\<rparr>,
      \<lparr>r_x = - 30, r_y = - 5, r_width = 10, r_height = 10\<rparr>,
      \<lparr>r_x = 120, r_y = - 5, r_width = 10, r_height = 10\<rparr>]"
  by (simp add: getItemRects_def exampleItems_def box_def calculateAspectFit_def Let_def)

lemma example_smartRoute_vertical:
  assumes "0 < c" and "c < 100"
  shows "smartRoute calculateAspectFit \<lparr>p_x = c, p_y = - 30\<rparr> \<lparr>p_x = c, p_y = 30\<rparr> (exampleItems a b)
     = [\<lparr>p_x = c, p_y = - 30\<rparr>]"
  using assms
  by (simp add: smartRoute_def candidates_def example_rects hitsObstacle_def segmentHitsRect_def Let_def)

lemma example_smartRoute_horizontal:
  "smartRoute calculateAspectFit \<lparr>p_x = 0, p_y = 0\<rparr> \<lparr>p_x = 100, p_y = 0\<rparr> (exampleItems a b)
     = [\<lparr>p_x = 100, p_y = 0\<rparr>]"
  by (simp add: smartRoute_def candidates_def example_rects hitsObstacle_def segmentHitsRect_def Let_def)

lemma example_grips:
  "getGripPosition calculateAspectFit (box i c d g) 0 =
     Inr (Some \<lparr>p_x = c + g_x g / 10, p_y = d + (100 - g_y g) / 10\<rparr>)"
  "gripAt (box i c d g) 0 = Some g"
  by (simp_all add: getGripPosition_def js_index_def gripAt_def box_def calculateAspectFit_def Let_def)

lemma example_standoffs:
  "getStandoff p (Some \<lparr>g_x = 50, g_y = 0\<rparr>) = \<lparr>p_x = p_x p, p_y = p_y p + 20\<rparr>"
  "getStandoff p (Some \<lparr>g_x = 50, g_y = 100\<rparr>) = \<lparr>p_x = p_x p, p_y = p_y p - 20\<rparr>"
  "getStandoff p (Some \<lparr>g_x = 100, g_y = 50\<rparr>) = \<lparr>p_x = p_x p + 20, p_y = p_y p\<rparr>"
  "getStandoff p (Some \<lparr>g_x = 0, g_y = 50\<rparr>) = \<lparr>p_x = p_x p - 20, p_y = p_y p\<rparr>"
  by (simp_all add: getStandoff_def getClosestSide_def STANDOFF_DIST_def Let_def)

lemma example_segment_h:
  "x1 < x2 \<Longrightarrow> buildSegments i (\<lparr>p_x = x1, p_y = y1\<rparr> # \<lparr>p_x = x2, p_y = y1\<rparr> # rest) =
     mkSeg i x1 y1 x2 y1 1 0 (x2 - x1) # buildSegments i (\<lparr>p_x = x2, p_y = y1\<rparr> # rest)"
  by (simp add: sub_def normalize_vec_def len_axis_x mkSeg_def Let_def)

lemma example_segment_v:
  "y1 < y2 \<Longrightarrow> buildSegments i (\<lparr>p_x = x1, p_y = y1\<rparr> # \<lparr>p_x = x1, p_y = y2\<rparr> # rest) =
     mkSeg i x1 y1 x1 y2 0 1 (y2 - y1) # buildSegments i (\<lparr>p_x = x1, p_y = y2\<rparr> # rest)"
  by (simp add: sub_def normalize_vec_def len_axis_y mkSeg_def Let_def)

lemma example_segment_0:
  "buildSegments i (p # p # rest) = buildSegments i (p # rest)"
  by (simp add: sub_def len_def Let_def)

lemma example_route_horizontal:
  "routeConnection calculateAspectFit (exampleItems a b) (wire i 5 6) =
     Inr (Some (\<lparr>line_id = i, segments = horizontalWire i\<rparr>, [\<lparr>p_x = 100, p_y = 0\<rparr>]))"
  by (simp add: routeConnection_def connectionLine_def wire_def item_lookup example_grips example_standoffs
      example_smartRoute_horizontal example_segment_h example_segment_0 Let_def horizontalWire_def
      del: buildSegments.simps(1))

lemma example_route_vertical:
  assumes "0 < a" "a < 100" "0 < b" "b < 100"
  shows "routeConnection calculateAspectFit (exampleItems a b) (wire i 1 2) =
           Inr (Some (\<lparr>line_id = i, segments = verticalWire i a\<rparr>, [\<lparr>p_x = a, p_y = - 30\<rparr>]))"
    and "routeConnection calculateAspectFit (exampleItems a b) (wire i 3 4) =
           Inr (Some (\<lparr>line_id = i, segments = verticalWire i b\<rparr>, [\<lparr>p_x = b, p_y = - 30\<rparr>]))"
  using assms
  by (simp_all add: routeConnection_def connectionLine_def wire_def item_lookup example_grips example_standoffs
      example_smartRoute_vertical example_segment_v example_segment_0 Let_def verticalWire_def
      del: buildSegments.simps(1))

lemma example_rawLines:
  assumes "0 < a" "a < 100" "0 < b" "b < 100"
  shows "buildRawLines calculateAspectFit (exampleItems a b) (exampleConnections i j k) [] Map.empty =
     Inr ([\<lparr>line_id = i, segments = verticalWire i a\<rparr>,
           \<lparr>line_id = j, segments = verticalWire j b\<rparr>,
           \<lparr>line_id = k, segments = horizontalWire k\<rparr>],
          [i \<mapsto> [\<lparr>p_x = a, p_y = - 30\<rparr>], j \<mapsto> [\<lparr>p_x = b, p_y = - 30\<rparr>],
           k \<mapsto> [\<lparr>p_x = 100, p_y = 0\<rparr>]])"
  by (simp add: exampleConnections_def example_route_vertical[OF assms] example_route_horizontal)
    (simp add: wire_def)

lemma example_segmentsOf:
  assumes "0 < a" "a < 100" "0 < b" "b < 100"
  shows "segmentsOf (buildRawLines calculateAspectFit (exampleItems a b) (exampleConnections i j k)
           [] Map.empty) = Some (exampleSegments i j k a b)"
  by (simp add: segmentsOf_def example_rawLines[OF assms] exampleSegments_def)

text \<open>A horizontal segment against a vertical one, a vertical against a horizontal, and
  two vertical ones.\<close>

lemma example_cross_hv:
  assumes "x1 < x2" and "y1 < y2"
  shows "getIntersectionT (mkSeg i x1 y x2 y d1 d2 l) (mkSeg k c y1 c y2 e1 e2 m) =
     (if \<bar>(x2 - x1) * (y2 - y1)\<bar> < 1 / 100000 then None
      else if 1 / 1000 < (c - x1) / (x2 - x1) \<and> (c - x1) / (x2 - x1) < 1 - 1 / 1000 \<and>
              1 / 1000 < (y - y1) / (y2 - y1) \<and> (y - y1) / (y2 - y1) < 1 - 1 / 1000
           then Some ((c - x1) / (x2 - x1) * l) else None)"
proof -
  have t: "((c - x1) * (y2 - y1)) / ((x2 - x1) * (y2 - y1)) = (c - x1) / (x2 - x1)"
    using assms by simp
  have u: "- ((y1 - y) * (x2 - x1)) / ((x2 - x1) * (y2 - y1)) = (y - y1) / (y2 - y1)"
  proof -
    have "- ((y1 - y) * (x2 - x1)) = (y - y1) * (x2 - x1)" by (simp add: algebra_simps)
    then show ?thesis using assms by simp
  qed
  show ?thesis
    unfolding getIntersectionT_def mkSeg_def sub_def Let_def
    by (simp only: point.simps lineSegment.simps mult_zero_left mult_zero_right diff_0_right
                   diff_self diff_0 t u)
qed

lemma example_cross_vh:
  assumes "x1 < x2" and "y1 < y2"
  shows "getIntersectionT (mkSeg i c y1 c y2 d1 d2 l) (mkSeg k x1 y x2 y e1 e2 m) =
     (if \<bar>- ((y2 - y1) * (x2 - x1))\<bar> < 1 / 100000 then None
      else if 1 / 1000 < (y - y1) / (y2 - y1) \<and> (y - y1) / (y2 - y1) < 1 - 1 / 1000 \<and>
              1 / 1000 < (c - x1) / (x2 - x1) \<and> (c - x1) / (x2 - x1) < 1 - 1 / 1000
           then Some ((y - y1) / (y2 - y1) * l) else None)"
proof -
  have t: "- ((y - y1) * (x2 - x1)) / - ((y2 - y1) * (x2 - x1)) = (y - y1) / (y2 - y1)"
    using assms by simp
  have u: "((x1 - c) * (y2 - y1)) / - ((y2 - y1) * (x2 - x1)) = (c - x1) / (x2 - x1)"
  proof -
    have "(x1 - c) * (y2 - y1) = - ((c - x1) * (y2 - y1))"
      and "(y2 - y1) * (x2 - x1) = (x2 - x1) * (y2 - y1)"
      by (simp_all add: algebra_simps)
    then show ?thesis using assms by simp
  qed
  show ?thesis
    unfolding getIntersectionT_def mkSeg_def sub_def Let_def
    by (simp only: point.simps lineSegment.simps mult_zero_left mult_zero_right diff_0_right
                   diff_self diff_0 t u)
qed

lemma example_cross_vv:
  "getIntersectionT (mkSeg i c y1 c y2 d1 d2 l) (mkSeg k c' y1' c' y2' e1 e2 m) = None"
  by (simp add: getIntersectionT_def mkSeg_def sub_def Let_def)

lemma mkSeg_sel:
  "lineId (mkSeg i x1 y1 x2 y2 dx dy l) = i"
  "seg_len (mkSeg i x1 y1 x2 y2 dx dy l) = l"
  "seg_p1 (mkSeg i x1 y1 x2 y2 dx dy l) = \<lparr>p_x = x1, p_y = y1\<rparr>"
  "seg_p2 (mkSeg i x1 y1 x2 y2 dx dy l) = \<lparr>p_x = x2, p_y = y2\<rparr>"
  "seg_dir (mkSeg i x1 y1 x2 y2 dx dy l) = \<lparr>p_x = dx, p_y = dy\<rparr>"
  by (simp_all add: mkSeg_def)

lemmas example_scan =
  sortedIntersections_def exampleSegments_def verticalWire_def horizontalWire_def
  example_cross_hv example_cross_vh example_cross_vv mkSeg_sel

text \<open>Wire ids 1, 2 (vertical) and 3 (horizontal): only the long horizontal segment
  records crossings.\<close>

lemma example_intersections_123:
  assumes "1 \<le> a" "a \<le> b" "b \<le> 99"
  shows "map (\<lambda>s. sortedIntersections s (exampleSegments 1 2 3 a b)) (horizontalWire 3)
           = [[], [(a, 1), (b, 2)], []]"
    and "map (\<lambda>s. sortedIntersections s (exampleSegments 1 2 3 a b)) (verticalWire 2 b) = [[], [], []]"
    and "map (\<lambda>s. sortedIntersections s (exampleSegments 1 2 3 a b)) (verticalWire 1 a) = [[], [], []]"
  using assms
  by (simp_all add: example_scan)


lemma example_run:
  assumes "0 < a" "a < 100" "0 < b" "b < 100"
  shows "calculateManualPathsWithBridges calculateAspectFit (exampleConnections i j k) (exampleItems a b) =
     Inr (fillPaths (exampleSegments i j k a b)
            [i \<mapsto> [\<lparr>p_x = a, p_y = - 30\<rparr>], j \<mapsto> [\<lparr>p_x = b, p_y = - 30\<rparr>],
             k \<mapsto> [\<lparr>p_x = 100, p_y = 0\<rparr>]]
            [\<lparr>line_id = i, segments = verticalWire i a\<rparr>,
             \<lparr>line_id = j, segments = verticalWire j b\<rparr>,
             \<lparr>line_id = k, segments = horizontalWire k\<rparr>] Map.empty)"
  by (simp add: calculateManualPathsWithBridges_def example_rawLines[OF assms] exampleSegments_def)

lemmas example_render =
  pathOf_def pathData_lineMeta linePath_def segmentPath_def verticalWire_def horizontalWire_def
  mkSeg_sel

lemma example_paths_123:
  assumes "1 \<le> a" "a \<le> b" "b \<le> 99"
  shows "pathOf (calculateManualPathsWithBridges calculateAspectFit (exampleConnections 1 2 3)
                   (exampleItems a b)) 3
     = Some ([M \<lparr>p_x = - 20, p_y = 0\<rparr>, L \<lparr>p_x = 0, p_y = 0\<rparr>]
             @ bridgeLoop (mkSeg 3 0 0 100 0 1 0 100) 0 [(a, 1), (b, 2)]
             @ [L \<lparr>p_x = 100, p_y = 0\<rparr>, L \<lparr>p_x = 120, p_y = 0\<rparr>])"
    and "pathOf (calculateManualPathsWithBridges calculateAspectFit (exampleConnections 1 2 3)
                   (exampleItems a b)) 2
     = Some [M \<lparr>p_x = b, p_y = - 50\<rparr>, L \<lparr>p_x = b, p_y = - 30\<rparr>,
             L \<lparr>p_x = b, p_y = 30\<rparr>, L \<lparr>p_x = b, p_y = 50\<rparr>]"
    and "pathOf (calculateManualPathsWithBridges calculateAspectFit (exampleConnections 1 2 3)
                   (exampleItems a b)) 1
     = Some [M \<lparr>p_x = a, p_y = - 50\<rparr>, L \<lparr>p_x = a, p_y = - 30\<rparr>,
             L \<lparr>p_x = a, p_y = 30\<rparr>, L \<lparr>p_x = a, p_y = 50\<rparr>]"
proof -
  have r: "0 < a" "a < 100" "0 < b" "b < 100" using assms by simp_all
  note scan = example_intersections_123[OF assms, unfolded verticalWire_def horizontalWire_def, simplified]
  show "pathOf (calculateManualPathsWithBridges calculateAspectFit (exampleConnections 1 2 3)
                   (exampleItems a b)) 3
     = Some ([M \<lparr>p_x = - 20, p_y = 0\<rparr>, L \<lparr>p_x = 0, p_y = 0\<rparr>]
             @ bridgeLoop (mkSeg 3 0 0 100 0 1 0 100) 0 [(a, 1), (b, 2)]
             @ [L \<lparr>p_x = 100, p_y = 0\<rparr>, L \<lparr>p_x = 120, p_y = 0\<rparr>])"
    unfolding example_run[OF r]
    by (simp add: example_render scan del: bridgeLoop.simps(2))
  show "pathOf (calculateManualPathsWithBridges calculateAspectFit (exampleConnections 1 2 3)
                   (exampleItems a b)) 2
     = Some [M \<lparr>p_x = b, p_y = - 50\<rparr>, L \<lparr>p_x = b, p_y = - 30\<rparr>,
             L \<lparr>p_x = b, p_y = 30\<rparr>, L \<lparr>p_x = b, p_y = 50\<rparr>]"
    unfolding example_run[OF r]
    by (simp add: example_render scan)
  show "pathOf (calculateManualPathsWithBridges calculateAspectFit (exampleConnections 1 2 3)
                   (exampleItems a b)) 1
     = Some [M \<lparr>p_x = a, p_y = - 50\<rparr>, L \<lparr>p_x = a, p_y = - 30\<rparr>,
             L \<lparr>p_x = a, p_y = 30\<rparr>, L \<lparr>p_x = a, p_y = 50\<rparr>]"
    unfolding example_run[OF r]
    by (simp add: example_render scan)
qed


text \<open>The bridges of the three cases used below.\<close>

lemmas example_bridge =
  mkSeg_sel Let_def BRIDGE_SIZE_def BRIDGE_HEIGHT_def add_def mult_def perp_def

lemma example_bridges_50_60:
  "bridgeLoop (mkSeg 3 0 0 100 0 1 0 100) 0 [(50, 1), (60, 2)] =
     [L \<lparr>p_x = 38, p_y = 0\<rparr>, Q \<lparr>p_x = 50, p_y = 24\<rparr> \<lparr>p_x = 62, p_y = 0\<rparr>,
      L \<lparr>p_x = 62, p_y = 0\<rparr>, Q \<lparr>p_x = 60, p_y = 24\<rparr> \<lparr>p_x = 72, p_y = 0\<rparr>]"
  "acceptedBridges (mkSeg 3 0 0 100 0 1 0 100) 0 [(50, 1), (60, 2)] = [(38, 50, 62), (62, 60, 72)]"
  by (simp_all add: example_bridge)



subsection \<open>Skipped connections\<close>

lemma getGripPosition_no_throw:
  "0 \<le> i \<Longrightarrow> getGripPosition fit item i \<noteq> Inl e"
  by (auto simp: getGripPosition_def js_index_def Let_def split: option.splits)

lemma routeConnection_no_throw:
  assumes "0 \<le> sourceGripIndex conn" and "0 \<le> targetGripIndex conn"
  shows "routeConnection fit items conn \<noteq> Inl e"
  using getGripPosition_no_throw[OF assms(1)] getGripPosition_no_throw[OF assms(2)]
  by (simp add: routeConnection_def split: option.splits sum.splits)

lemma buildRawLines_total:
  "\<forall>conn \<in> set conns. \<forall>e. routeConnection fit items conn \<noteq> Inl e \<Longrightarrow>
     \<exists>r. buildRawLines fit items conns raw cw = Inr r"
  by (induction conns arbitrary: raw cw) (auto split: sum.splits option.splits)

lemma routable_iff:
  "routable fit items conn \<longleftrightarrow>
     (\<exists>source target start en.
        find (\<lambda>i. item_id i = sourceItemId conn) items = Some source \<and>
        find (\<lambda>i. item_id i = targetItemId conn) items = Some target \<and>
        getGripPosition fit source (sourceGripIndex conn) = Inr (Some start) \<and>
        getGripPosition fit target (targetGripIndex conn) = Inr (Some en))"
  by (simp add: routable_def routeConnection_def split: option.splits sum.splits)

text \<open>When no grip index is negative the pass returns, and its output has an entry
  exactly under the ids of the connections whose two items exist and whose two grip
  positions resolve.\<close>

lemma pass_skips_unroutable:
  assumes "\<forall>conn \<in> set conns. 0 \<le> sourceGripIndex conn \<and> 0 \<le> targetGripIndex conn"
  shows "\<exists>out. calculateManualPathsWithBridges fit conns items = Inr out \<and>
               dom out = conn_id ` {c \<in> set conns. routable fit items c}"
proof -
  have "\<forall>conn \<in> set conns. \<forall>e. routeConnection fit items conn \<noteq> Inl e"
    using assms routeConnection_no_throw by blast
  from buildRawLines_total[OF this]
  obtain rawLines cw where raw: "buildRawLines fit items conns [] Map.empty = Inr (rawLines, cw)"
    by (metis surj_pair)
  have "set (map line_id rawLines) = set (map conn_id (filter (routable fit items) conns))"
    using rawLines_ids[OF raw] by simp
  then have "line_id ` set rawLines = conn_id ` {c \<in> set conns. routable fit items c}"
    by simp
  then show ?thesis
    by (simp add: calculateManualPathsWithBridges_def raw dom_fillPaths)
qed

text \<open>
  Claim C8 (the code departs from it). The claim: a connection whose source or target
  item is missing, or whose grip position fails to resolve, is left out of the output,
  every other routable connection still gets its entry, and the pass never throws. For
  grip indices that are not negative this holds (lemma \<open>pass_skips_unroutable\<close>). A
  negative grip index on an item that has grips makes \<open>getGripPosition\<close> throw, which
  ends the whole pass: here the routable wire 3 comes first and still gets no output.
\<close>

theorem pass_throws_on_negative_index:
  "calculateManualPathsWithBridges calculateAspectFit [wire 3 5 6, badWire] (exampleItems 50 60)
     = Inl TypeError"
proof -
  have "routeConnection calculateAspectFit (exampleItems 50 60) badWire = Inl TypeError"
    by (simp add: routeConnection_def badWire_def item_lookup getGripPosition_def js_index_def
        box_def)
  then show ?thesis
    by (simp add: calculateManualPathsWithBridges_def example_route_horizontal)
qed

subsection \<open>Automatic routes\<close>

lemma getStandoff_axis:
  "p_x (getStandoff p g) = p_x p \<or> p_y (getStandoff p g) = p_y p"
  by (simp add: getStandoff_def split: side.splits)

lemma smartRoute_candidates:
  "smartRoute fit start en items = [\<lparr>p_x = p_x en, p_y = p_y start\<rparr>] \<or>
   smartRoute fit start en items = [\<lparr>p_x = p_x start, p_y = p_y en\<rparr>] \<or>
   smartRoute fit start en items =
     [\<lparr>p_x = (p_x start + p_x en) / 2, p_y = p_y start\<rparr>,
      \<lparr>p_x = (p_x start + p_x en) / 2, p_y = p_y en\<rparr>] \<or>
   smartRoute fit start en items =
     [\<lparr>p_x = p_x start, p_y = (p_y start + p_y en) / 2\<rparr>,
      \<lparr>p_x = p_x en, p_y = (p_y start + p_y en) / 2\<rparr>]"
  by (simp add: smartRoute_chain Let_def)

lemma len_pos_distinct: "0 < len (sub b a) \<Longrightarrow> a \<noteq> b"
  by (auto simp: len_def sub_def)

lemma axis_exactly_one:
  assumes "p_x a = p_x b \<or> p_y a = p_y b" and "a \<noteq> (b::point)"
  shows "(p_y a = p_y b \<and> p_x a \<noteq> p_x b) \<or> (p_x a = p_x b \<and> p_y a \<noteq> p_y b)"
  using assms by (cases a, cases b) auto

lemma auto_points_axis:
  assumes "(a, b) \<in> set (zip ([s0, getStandoff s0 g1] @ smartRoute fit (getStandoff s0 g1) (getStandoff e0 g2) items @ [getStandoff e0 g2, e0])
                         (tl ([s0, getStandoff s0 g1] @ smartRoute fit (getStandoff s0 g1) (getStandoff e0 g2) items @ [getStandoff e0 g2, e0])))"
  shows "p_x a = p_x b \<or> p_y a = p_y b"
proof -
  let ?ss = "getStandoff s0 g1" and ?es = "getStandoff e0 g2"
  note c = smartRoute_candidates[of fit ?ss ?es items]
  note a1 = getStandoff_axis[of s0 g1] and a2 = getStandoff_axis[of e0 g2]
  from c show ?thesis
  proof (elim disjE)
    assume "smartRoute fit ?ss ?es items = [\<lparr>p_x = p_x ?es, p_y = p_y ?ss\<rparr>]"
    with assms a1 a2 show ?thesis by auto
  next
    assume "smartRoute fit ?ss ?es items = [\<lparr>p_x = p_x ?ss, p_y = p_y ?es\<rparr>]"
    with assms a1 a2 show ?thesis by auto
  next
    assume "smartRoute fit ?ss ?es items =
      [\<lparr>p_x = (p_x ?ss + p_x ?es) / 2, p_y = p_y ?ss\<rparr>,
       \<lparr>p_x = (p_x ?ss + p_x ?es) / 2, p_y = p_y ?es\<rparr>]"
    with assms a1 a2 show ?thesis by auto
  next
    assume "smartRoute fit ?ss ?es items =
      [\<lparr>p_x = p_x ?ss, p_y = (p_y ?ss + p_y ?es) / 2\<rparr>,
       \<lparr>p_x = p_x ?es, p_y = (p_y ?ss + p_y ?es) / 2\<rparr>]"
    with assms a1 a2 show ?thesis by auto
  qed
qed

lemma connectionLine_auto:
  assumes "waypoints conn = None \<or> waypoints conn = Some []"
  shows "connectionLine fit items conn source target s0 e0 =
     (\<lparr>line_id = conn_id conn,
       segments = buildSegments (conn_id conn)
         ([s0, getStandoff s0 (gripAt source (sourceGripIndex conn))]
            @ smartRoute fit (getStandoff s0 (gripAt source (sourceGripIndex conn)))
                (getStandoff e0 (gripAt target (targetGripIndex conn))) items
            @ [getStandoff e0 (gripAt target (targetGripIndex conn)), e0])\<rparr>,
      smartRoute fit (getStandoff s0 (gripAt source (sourceGripIndex conn)))
        (getStandoff e0 (gripAt target (targetGripIndex conn))) items)"
  using assms
  by (auto simp: connectionLine_def Let_def simp del: buildSegments.simps)

text \<open>
  Claim C9. For a connection routed automatically (waypoints absent or empty), every
  segment the pass builds for it, from the grip to the standoff, through the bends of
  \<open>smartRoute\<close> and from the standoff to the grip, is axis-aligned: exactly horizontal
  or exactly vertical.
\<close>

theorem auto_route_axis_aligned:
  assumes raw: "buildRawLines fit items conns [] Map.empty = Inr (rawLines, cw)"
    and conn: "conn \<in> set conns"
    and auto: "waypoints conn = None \<or> waypoints conn = Some []"
    and r: "routeConnection fit items conn = Inr (Some (line, bends))"
  shows "line \<in> set rawLines \<and>
         (\<forall>seg \<in> set (segments line).
            (p_y (seg_p1 seg) = p_y (seg_p2 seg) \<and> p_x (seg_p1 seg) \<noteq> p_x (seg_p2 seg)) \<or>
            (p_x (seg_p1 seg) = p_x (seg_p2 seg) \<and> p_y (seg_p1 seg) \<noteq> p_y (seg_p2 seg)))"
proof
  show "line \<in> set rawLines"
    using rawLines_origin[OF raw] conn r by blast
  obtain source target s0 e0
    where cl: "(line, bends) = connectionLine fit items conn source target s0 e0"
    using routeConnection_Some[OF r] by blast
  let ?pts = "[s0, getStandoff s0 (gripAt source (sourceGripIndex conn))]
            @ smartRoute fit (getStandoff s0 (gripAt source (sourceGripIndex conn)))
                (getStandoff e0 (gripAt target (targetGripIndex conn))) items
            @ [getStandoff e0 (gripAt target (targetGripIndex conn)), e0]"
  have segs: "segments line = buildSegments (conn_id conn) ?pts"
    using cl unfolding connectionLine_auto[OF auto] by simp
  show "\<forall>seg \<in> set (segments line).
            (p_y (seg_p1 seg) = p_y (seg_p2 seg) \<and> p_x (seg_p1 seg) \<noteq> p_x (seg_p2 seg)) \<or>
            (p_x (seg_p1 seg) = p_x (seg_p2 seg) \<and> p_y (seg_p1 seg) \<noteq> p_y (seg_p2 seg))"
  proof
    fix seg assume "seg \<in> set (segments line)"
    then have "seg \<in> set (buildSegments (conn_id conn) ?pts)" using segs by simp
    from buildSegments_props[OF this]
    have pos: "0 < len (sub (seg_p2 seg) (seg_p1 seg))"
      and pair: "(seg_p1 seg, seg_p2 seg) \<in> set (zip ?pts (tl ?pts))"
      by simp_all
    have "p_x (seg_p1 seg) = p_x (seg_p2 seg) \<or> p_y (seg_p1 seg) = p_y (seg_p2 seg)"
      using auto_points_axis[OF pair] .
    moreover have "seg_p1 seg \<noteq> seg_p2 seg" using len_pos_distinct[OF pos] .
    ultimately show "(p_y (seg_p1 seg) = p_y (seg_p2 seg) \<and> p_x (seg_p1 seg) \<noteq> p_x (seg_p2 seg)) \<or>
            (p_x (seg_p1 seg) = p_x (seg_p2 seg) \<and> p_y (seg_p1 seg) \<noteq> p_y (seg_p2 seg))"
      by (rule axis_exactly_one)
  qed
qed

theorem auto_route_axis_aligned_witness:
  "\<exists>rawLines cw.
     buildRawLines calculateAspectFit (exampleItems 50 60) (exampleConnections 1 2 3) [] Map.empty
       = Inr (rawLines, cw) \<and>
     \<lparr>line_id = 3, segments = horizontalWire 3\<rparr> \<in> set rawLines \<and>
     list_all (\<lambda>seg. (p_y (seg_p1 seg) = p_y (seg_p2 seg) \<and> p_x (seg_p1 seg) \<noteq> p_x (seg_p2 seg)) \<or>
                      (p_x (seg_p1 seg) = p_x (seg_p2 seg) \<and> p_y (seg_p1 seg) \<noteq> p_y (seg_p2 seg)))
       (horizontalWire 3)"
proof -
  have b: "(0::real) < 50" "(50::real) < 100" "(0::real) < 60" "(60::real) < 100" by simp_all
  note raw = example_rawLines[OF b, of 1 2 3]
  have conn: "wire 3 5 6 \<in> set (exampleConnections 1 2 3)"
    by (simp add: exampleConnections_def)
  have auto: "waypoints (wire 3 5 6) = None \<or> waypoints (wire 3 5 6) = Some []"
    by (simp add: wire_def)
  note r = example_route_horizontal[of 50 60 3]
  from auto_route_axis_aligned[OF raw conn auto r] raw show ?thesis
    by (simp add: list_all_iff)
qed

subsection \<open>Bridges\<close>

text \<open>
  Claim C3, as amended. For every bridge the pass accepts on a segment (every \<open>Q\<close> command
  it emits; the commands of the loop are those of the accepted bridges, in order), the
  interval satisfies \<open>0 \<le> startT < endT \<le> segment.len\<close> and \<open>0 < centerT < endT\<close>, where
  \<open>centerT\<close> is the crossing's distance along the segment. \<open>startT < centerT\<close> holds
  exactly when the bridge accepted before it on the segment, if there is one, ended before
  \<open>centerT\<close>; it holds for the first bridge of a segment. A bridge whose interval is
  degenerate (start \<ge> end) is skipped: the loop emits nothing for it.
\<close>

theorem bridge_containment:
  assumes "buildRawLines fit items conns [] Map.empty = Inr (rawLines, cw)"
    and "line \<in> set rawLines" and "seg \<in> set (segments line)"
    and "bs = acceptedBridges seg 0 (sortedIntersections seg (concat (map segments rawLines)))"
    and "n < length bs"
  shows "bridgeLoop seg 0 (sortedIntersections seg (concat (map segments rawLines)))
           = concat (map (bridgeCommands seg) bs)
       \<and> (case bs ! n of (startT, centerT, endT) \<Rightarrow>
            0 \<le> startT \<and> startT < endT \<and> endT \<le> seg_len seg \<and>
            0 < centerT \<and> centerT < endT \<and>
            (startT < centerT \<longleftrightarrow> (if n = 0 then 0 else snd (snd (bs ! (n - 1)))) < centerT))
       \<and> (\<forall>cur c k rest. max cur (c - 12) \<ge> min (seg_len seg) (c + 12) \<longrightarrow>
            bridgeLoop seg cur ((c, k) # rest) = bridgeLoop seg cur rest)"
proof -
  let ?all = "concat (map segments rawLines)"
  have len: "0 < seg_len seg" using rawLines_segments(2)[OF assms(1-3)] .
  have rng: "\<forall>(t, k) \<in> set (sortedIntersections seg ?all). 0 < t \<and> t < seg_len seg"
    using getIntersectionT_range len by (auto simp: sortedIntersections_set)
  obtain s c e where b: "bs ! n = (s, c, e)" by (cases "bs ! n")
  have ix: "s = max (if n = 0 then 0 else snd (snd (bs ! (n - 1)))) (c - BRIDGE_SIZE) \<and>
           e = min (seg_len seg) (c + BRIDGE_SIZE) \<and> s < e \<and> 0 < c \<and> c < seg_len seg"
    using acceptedBridges_index[OF order_refl rng assms(4,5)] unfolding b prod.case .
  have prev: "0 \<le> (if n = 0 then 0 else snd (snd (bs ! (n - 1))))"
  proof (cases n)
    case 0 then show ?thesis by simp
  next
    case (Suc m)
    then have "m < length bs" using assms(5) by simp
    from acceptedBridges_index[OF order_refl rng assms(4) this]
    have "snd (snd (bs ! m)) = min (seg_len seg) (fst (snd (bs ! m)) + BRIDGE_SIZE) \<and>
          0 < fst (snd (bs ! m))"
      by (auto simp: case_prod_beta)
    then have "0 \<le> snd (snd (bs ! m))" using len by (simp add: BRIDGE_SIZE_def)
    then show ?thesis using Suc by simp
  qed
  have part2: "0 \<le> s \<and> s < e \<and> e \<le> seg_len seg \<and> 0 < c \<and> c < e \<and>
        (s < c \<longleftrightarrow> (if n = 0 then 0 else snd (snd (bs ! (n - 1)))) < c)"
    using ix prev by (auto simp: BRIDGE_SIZE_def)
  have part3: "\<forall>cur c k rest. max cur (c - 12) \<ge> min (seg_len seg) (c + 12) \<longrightarrow>
            bridgeLoop seg cur ((c, k) # rest) = bridgeLoop seg cur rest"
    by (simp add: Let_def BRIDGE_SIZE_def)
  have part1: "bridgeLoop seg 0 (sortedIntersections seg ?all) = concat (map (bridgeCommands seg) bs)"
    unfolding assms(4) by (rule bridgeLoop_accepted)
  have part2': "case bs ! n of (startT, centerT, endT) \<Rightarrow>
            0 \<le> startT \<and> startT < endT \<and> endT \<le> seg_len seg \<and>
            0 < centerT \<and> centerT < endT \<and>
            (startT < centerT \<longleftrightarrow> (if n = 0 then 0 else snd (snd (bs ! (n - 1)))) < centerT)"
    unfolding b prod.case using part2 .
  from part1 part2' part3 show ?thesis by (intro conjI)
qed

text \<open>The claim as the spec states it asks \<open>startT < centerT\<close> of every accepted bridge.
  In the example with the vertical wires at 50 and 60, the horizontal wire's second bridge
  starts where the first one ended, at 62, beyond its own centre 60.\<close>

theorem bridge_containment_counterexample:
  "segmentsOf (buildRawLines calculateAspectFit (exampleItems 50 60) (exampleConnections 1 2 3)
       [] Map.empty) = Some (exampleSegments 1 2 3 50 60)
   \<and> mkSeg 3 0 0 100 0 1 0 100 \<in> set (exampleSegments 1 2 3 50 60)
   \<and> acceptedBridges (mkSeg 3 0 0 100 0 1 0 100) 0
        (sortedIntersections (mkSeg 3 0 0 100 0 1 0 100) (exampleSegments 1 2 3 50 60))
      = [(38, 50, 62), (62, 60, 72)]
   \<and> \<not> list_all (\<lambda>(startT, centerT, endT).
                    startT < centerT \<and> centerT < endT \<and>
                    0 \<le> startT \<and> endT \<le> seg_len (mkSeg 3 0 0 100 0 1 0 100))
        (acceptedBridges (mkSeg 3 0 0 100 0 1 0 100) 0
           (sortedIntersections (mkSeg 3 0 0 100 0 1 0 100) (exampleSegments 1 2 3 50 60)))
   \<and> pathOf (calculateManualPathsWithBridges calculateAspectFit (exampleConnections 1 2 3)
               (exampleItems 50 60)) 3
      = Some [M \<lparr>p_x = - 20, p_y = 0\<rparr>, L \<lparr>p_x = 0, p_y = 0\<rparr>,
              L \<lparr>p_x = 38, p_y = 0\<rparr>, Q \<lparr>p_x = 50, p_y = 24\<rparr> \<lparr>p_x = 62, p_y = 0\<rparr>,
              L \<lparr>p_x = 62, p_y = 0\<rparr>, Q \<lparr>p_x = 60, p_y = 24\<rparr> \<lparr>p_x = 72, p_y = 0\<rparr>,
              L \<lparr>p_x = 100, p_y = 0\<rparr>, L \<lparr>p_x = 120, p_y = 0\<rparr>]"
proof -
  have b: "(0::real) < 50" "(50::real) < 100" "(0::real) < 60" "(60::real) < 100" by simp_all
  have o: "(1::real) \<le> 50" "(50::real) \<le> 60" "(60::real) \<le> 99" by simp_all
  note scan = example_intersections_123[OF o, unfolded verticalWire_def horizontalWire_def, simplified]
  show ?thesis
    by (simp add: example_segmentsOf[OF b] example_paths_123[OF o] scan example_bridges_50_60
          del: bridgeLoop.simps(2) acceptedBridges.simps(2))
      (simp add: exampleSegments_def horizontalWire_def)
qed

theorem bridge_containment_witness:
  "bridgeLoop (mkSeg 3 0 0 100 0 1 0 100) 0
     (sortedIntersections (mkSeg 3 0 0 100 0 1 0 100) (exampleSegments 1 2 3 50 60))
   = concat (map (bridgeCommands (mkSeg 3 0 0 100 0 1 0 100)) [(38, 50, 62), (62, 60, 72)])
   \<and> (case acceptedBridges (mkSeg 3 0 0 100 0 1 0 100) 0
              (sortedIntersections (mkSeg 3 0 0 100 0 1 0 100) (exampleSegments 1 2 3 50 60)) ! 1
       of (startT, centerT, endT) \<Rightarrow>
            0 \<le> startT \<and> startT < endT \<and> endT \<le> seg_len (mkSeg 3 0 0 100 0 1 0 100) \<and>
            0 < centerT \<and> centerT < endT \<and> \<not> startT < centerT)"
proof -
  have b: "(0::real) < 50" "(50::real) < 100" "(0::real) < 60" "(60::real) < 100" by simp_all
  have o: "(1::real) \<le> 50" "(50::real) \<le> 60" "(60::real) \<le> 99" by simp_all
  note scan = example_intersections_123[OF o, unfolded verticalWire_def horizontalWire_def, simplified]
  let ?lines = "[\<lparr>line_id = 1, segments = verticalWire 1 50\<rparr>,
                 \<lparr>line_id = 2, segments = verticalWire 2 60\<rparr>,
                 \<lparr>line_id = 3, segments = horizontalWire 3\<rparr>]"
  let ?seg = "mkSeg 3 0 0 100 0 1 0 100"
  note raw = example_rawLines[OF b, of 1 2 3]
  have all: "concat (map segments ?lines) = exampleSegments 1 2 3 50 60"
    by (simp add: exampleSegments_def)
  have line: "\<lparr>line_id = 3, segments = horizontalWire 3\<rparr> \<in> set ?lines" by simp
  have seg: "?seg \<in> set (segments \<lparr>line_id = 3, segments = horizontalWire 3\<rparr>)"
    by (simp add: horizontalWire_def)
  have n: "1 < length (acceptedBridges ?seg 0 (sortedIntersections ?seg (concat (map segments ?lines))))"
    unfolding all
    by (simp add: scan example_bridges_50_60 del: bridgeLoop.simps(2) acceptedBridges.simps(2))
  from bridge_containment[OF raw line seg refl n] show ?thesis
    unfolding all
    by (simp add: scan example_bridges_50_60 mkSeg_sel
          del: bridgeLoop.simps(2) acceptedBridges.simps(2))
qed




subsection \<open>Tie-break\<close>




end
